theory Spec2Isabelle
  imports Main "HOL-Library.Product_Lexorder"
begin

section \<open>Python strings\<close>

text \<open>
  Strings are character lists. The three string operations the log reader uses are
  \<^verbatim>\<open>s.split(' ')\<close>, \<^verbatim>\<open>s.rsplit('\\', 1)[-1]\<close> and slicing \<^verbatim>\<open>s[a:b]\<close>.
  \<^verbatim>\<open>split\<close> with an explicit separator cuts at every occurrence of it and keeps
  the empty pieces, so the result always has one piece more than there are separators.
\<close>

fun py_split :: "char \<Rightarrow> string \<Rightarrow> string list" where
  "py_split sep [] = [[]]"
| "py_split sep (c # cs) =
     (if c = sep then [] # py_split sep cs
      else (case py_split sep cs of
              [] \<Rightarrow> [[c]]
            | w # ws \<Rightarrow> (c # w) # ws))"

definition backslash :: char where
  "backslash = CHR 0x5C"

definition newline :: char where
  "newline = CHR 0x0A"

text \<open>\<^verbatim>\<open>s.rsplit(sep, 1)[-1]\<close>: what follows the last separator, the whole string when
  there is none.\<close>

definition rsplit1_last :: "char \<Rightarrow> string \<Rightarrow> string" where
  "rsplit1_last sep s = rev (takeWhile (\<lambda>c. c \<noteq> sep) (rev s))"

text \<open>\<^verbatim>\<open>s[a:b]\<close> for \<open>0 \<le> a \<le> b\<close>; Python slices never raise.\<close>

definition slice :: "nat \<Rightarrow> nat \<Rightarrow> 'a list \<Rightarrow> 'a list" where
  "slice a b s = take (b - a) (drop a s)"

definition is_digit :: "char \<Rightarrow> bool" where
  "is_digit c = (48 \<le> (of_char c :: nat) \<and> (of_char c :: nat) \<le> 57)"

definition digit_val :: "char \<Rightarrow> nat" where
  "digit_val c = of_char c - 48"

text \<open>\<^verbatim>\<open>int(s)\<close> on a string of decimal digits.\<close>

definition nat_of_digits :: "string \<Rightarrow> nat" where
  "nat_of_digits s = foldl (\<lambda>n c. 10 * n + digit_val c) 0 s"

text \<open>\<^verbatim>\<open>u in s\<close>: \<open>u\<close> occurs in \<open>s\<close> as a contiguous piece.\<close>

fun contains :: "string \<Rightarrow> string \<Rightarrow> bool" where
  "contains u [] = (u = [])"
| "contains u (c # cs) = (take (length u) (c # cs) = u \<or> contains u cs)"

section \<open>Dates and times\<close>

text \<open>
  A \<^verbatim>\<open>datetime.date\<close> is (year, month, day), a time of day is (hour, minute, second) and a
  \<^verbatim>\<open>datetime.datetime\<close> is the pair of both. Python compares them field by field from
  the left, which is the lexicographic order on products.
\<close>

type_synonym date = "nat \<times> nat \<times> nat"
type_synonym time_of_day = "nat \<times> nat \<times> nat"
type_synonym datetime = "date \<times> time_of_day"

text \<open>\<^verbatim>\<open>dt.date()\<close>\<close>

definition date_of :: "datetime \<Rightarrow> date" where
  "date_of dt = fst dt"

definition is_leap :: "nat \<Rightarrow> bool" where
  "is_leap y = (y mod 4 = 0 \<and> (y mod 100 \<noteq> 0 \<or> y mod 400 = 0))"

definition days_in_month :: "nat \<Rightarrow> nat \<Rightarrow> nat" where
  "days_in_month y m =
     (if m = 2 then (if is_leap y then 29 else 28)
      else if m = 4 \<or> m = 6 \<or> m = 9 \<or> m = 11 then 30
      else 31)"

definition valid_date :: "date \<Rightarrow> bool" where
  "valid_date d =
     (case d of (y, m, dd) \<Rightarrow> 1 \<le> y \<and> y \<le> 9999 \<and> 1 \<le> m \<and> m \<le> 12 \<and> 1 \<le> dd \<and> dd \<le> days_in_month y m)"

definition valid_time :: "time_of_day \<Rightarrow> bool" where
  "valid_time t = (case t of (h, mi, s) \<Rightarrow> h < 24 \<and> mi < 60 \<and> s < 60)"

subsection \<open>\<^verbatim>\<open>datetime.strptime(s, "%y%m%d")\<close>\<close>

text \<open>
  The standard library turns the format into the regular expression
  \<^verbatim>\<open>(\d\d)(1[0-2]|0[1-9]|[1-9])(3[01]|[12]\d|0[1-9]|[1-9]| [1-9])\<close>, matches it at the
  start of the string and raises ValueError when there is no match, when the match
  does not reach the end of the string, or when the day does not exist in the month.
  A two-digit year up to 68 is in the 2000s, a later one in the 1900s.
  \<open>match_m\<close> and \<open>match_d\<close> list the ways a month and a day can be read off the front
  of a string, in the order the alternatives of the expression are tried; the
  expression's match is the first combination of the two.
\<close>

definition match_y :: "string \<Rightarrow> (nat \<times> string) list" where
  "match_y s =
     (case s of
        a # b # r \<Rightarrow> (if is_digit a \<and> is_digit b then [(10 * digit_val a + digit_val b, r)] else [])
      | _ \<Rightarrow> [])"

definition match_m :: "string \<Rightarrow> (nat \<times> string) list" where
  "match_m s =
     (case s of
        a # b # r \<Rightarrow>
          (if a = CHR ''1'' \<and> is_digit b \<and> digit_val b \<le> 2 then [(10 + digit_val b, r)] else []) @
          (if a = CHR ''0'' \<and> is_digit b \<and> 1 \<le> digit_val b then [(digit_val b, r)] else [])
      | _ \<Rightarrow> []) @
     (case s of
        a # r \<Rightarrow> (if is_digit a \<and> 1 \<le> digit_val a then [(digit_val a, r)] else [])
      | _ \<Rightarrow> [])"

definition match_d :: "string \<Rightarrow> (nat \<times> string) list" where
  "match_d s =
     (case s of
        a # b # r \<Rightarrow>
          (if a = CHR ''3'' \<and> is_digit b \<and> digit_val b \<le> 1 then [(30 + digit_val b, r)] else []) @
          (if is_digit a \<and> 1 \<le> digit_val a \<and> digit_val a \<le> 2 \<and> is_digit b
           then [(10 * digit_val a + digit_val b, r)] else []) @
          (if a = CHR ''0'' \<and> is_digit b \<and> 1 \<le> digit_val b then [(digit_val b, r)] else [])
      | _ \<Rightarrow> []) @
     (case s of
        a # r \<Rightarrow> (if is_digit a \<and> 1 \<le> digit_val a then [(digit_val a, r)] else [])
      | _ \<Rightarrow> []) @
     (case s of
        a # b # r \<Rightarrow> (if a = CHR '' '' \<and> is_digit b \<and> 1 \<le> digit_val b then [(digit_val b, r)] else [])
      | _ \<Rightarrow> [])"

definition regex_ymd :: "string \<Rightarrow> ((nat \<times> nat \<times> nat) \<times> string) list" where
  "regex_ymd s =
     concat (map (\<lambda>(y, r0).
       concat (map (\<lambda>(m, r1).
         map (\<lambda>(d, r2). ((y, m, d), r2)) (match_d r1)) (match_m r0))) (match_y s))"

definition strptime_ymd :: "string \<Rightarrow> date option" where
  "strptime_ymd s =
     (case regex_ymd s of
        [] \<Rightarrow> None
      | ((y, m, d), rest) # _ \<Rightarrow>
          (if rest \<noteq> [] then None
           else (let year = (if y \<le> 68 then y + 2000 else y + 1900)
                 in if d \<le> days_in_month year m then Some (year, m, d) else None)))"

subsection \<open>Timestamps in the form of the log files\<close>

text \<open>
  W3C extended log files write the date as \<^verbatim>\<open>YYYY-MM-DD\<close> and the time as
  \<^verbatim>\<open>HH:MM:SS\<close>. \<open>iso_datetime\<close> reads the two joined by one space, for the years
  1678 to 2261, every moment of which a pandas timestamp can hold; it is \<open>None\<close> for
  any other text.
\<close>

definition iso_datetime :: "string \<Rightarrow> datetime option" where
  "iso_datetime s =
     (if length s = 19 \<and> s ! 4 = CHR ''-'' \<and> s ! 7 = CHR ''-'' \<and> s ! 10 = CHR '' '' \<and>
         s ! 13 = CHR '':'' \<and> s ! 16 = CHR '':'' \<and>
         list_all is_digit (slice 0 4 s @ slice 5 7 s @ slice 8 10 s @ slice 11 13 s @
                            slice 14 16 s @ slice 17 19 s)
      then (let d = (nat_of_digits (slice 0 4 s), nat_of_digits (slice 5 7 s), nat_of_digits (slice 8 10 s));
                t = (nat_of_digits (slice 11 13 s), nat_of_digits (slice 14 16 s), nat_of_digits (slice 17 19 s))
            in if valid_date d \<and> 1678 \<le> fst d \<and> fst d \<le> 2261 \<and> valid_time t then Some (d, t) else None)
      else None)"

section \<open>Exceptions\<close>

text \<open>
  The exceptions the scripts can meet; \<open>RegexError\<close> is \<^verbatim>\<open>re.error\<close>. A function that
  may raise returns \<open>error + 'a\<close>, \<open>Inl\<close> for the exception.
\<close>

datatype error =
  ValueError | OSError | KeyError | NameError | DatabaseError | TypeError | AttributeError | RegexError

definition bind :: "error + 'a \<Rightarrow> ('a \<Rightarrow> error + 'b) \<Rightarrow> error + 'b" where
  "bind m f = (case m of Inl e \<Rightarrow> Inl e | Inr x \<Rightarrow> f x)"

section \<open>\<^verbatim>\<open>pd.to_datetime\<close> on a column\<close>

text \<open>
  \<^verbatim>\<open>pd.to_datetime\<close> is given a column of texts and missing values. When every text of
  the column has the form of the log files, the result holds the timestamp of each text
  and NaT (\<open>None\<close>) for each missing value. What pandas does with a column that holds
  any other text depends on the text, on the rest of the column and on the version of
  pandas; it is left open, as the parameter \<open>other\<close>: for such a column it either
  raises or gives the value at each position.
\<close>

type_synonym date_reader = "string option list \<Rightarrow> error + (nat \<Rightarrow> datetime option)"

definition iso_or_missing :: "string option \<Rightarrow> bool" where
  "iso_or_missing c = (case c of None \<Rightarrow> True | Some s \<Rightarrow> iso_datetime s \<noteq> None)"

definition iso_cell :: "string option \<Rightarrow> datetime option" where
  "iso_cell c = (case c of None \<Rightarrow> None | Some s \<Rightarrow> iso_datetime s)"

definition pd_to_datetime :: "date_reader \<Rightarrow> string option list \<Rightarrow> error + datetime option list" where
  "pd_to_datetime other col =
     (if list_all iso_or_missing col then Inr (map iso_cell col)
      else (case other col of
              Inl e \<Rightarrow> Inl e
            | Inr at \<Rightarrow> Inr (map at [0..<length col])))"

section \<open>Log rows and frames\<close>

text \<open>
  A data frame is the list of its rows. A cell is a text (a Python \<^verbatim>\<open>str\<close>), a number,
  given by the text Python prints for it, or pandas' missing value NaN.
  \<^verbatim>\<open>pd.read_csv\<close> makes numbers of a column all of whose fields read as numbers, and
  NaN of an empty field and of a field that reads \<^verbatim>\<open>NA\<close>, \<^verbatim>\<open>null\<close>, \<^verbatim>\<open>NULL\<close>,
  \<^verbatim>\<open>nan\<close>, \<^verbatim>\<open>None\<close> or \<^verbatim>\<open>N/A\<close>; the line-by-line reader makes every cell a text.
  The fields of a row are the names \<^verbatim>\<open>readNewerLogs\<close> gives the columns.
\<close>

datatype cell = NaN | Str string | Number string

record row =
  log_date :: cell
  log_time :: cell
  s_ip :: cell
  cs_method :: cell
  cs_uri_stem :: cell
  cs_uri_query :: cell
  s_port :: cell
  cs_username :: cell
  c_ip :: cell
  cs_user_agent :: cell
  sc_status :: cell
  sc_substatus :: cell
  sc_win32_status :: cell
  time_taken :: cell

text \<open>
  The dtype of a column, as far as the code depends on it: a column in which a text
  stands has dtype \<^verbatim>\<open>object\<close>; a column of numbers and missing values only has a
  numeric dtype (\<^verbatim>\<open>float64\<close> when all its values are missing). \<^verbatim>\<open>pd.read_csv\<close>
  returns no frame without a row. Selecting rows of a frame leaves the dtypes of its
  columns as they are.
\<close>

definition is_text :: "cell \<Rightarrow> bool" where
  "is_text c = (case c of Str s \<Rightarrow> True | NaN \<Rightarrow> False | Number n \<Rightarrow> False)"

definition object_dtype :: "(row \<Rightarrow> cell) \<Rightarrow> row list \<Rightarrow> bool" where
  "object_dtype column df = list_ex (\<lambda>r. is_text (column r)) df"

definition header :: string where
  "header = ''log_date log_time s_ip cs_method cs_uri_stem cs_uri_query s_port cs_username c_ip cs_user_agent sc_status sc_substatus sc_win32_status time_taken''"

definition columns :: "string list" where
  "columns = py_split (CHR '' '') header"

text \<open>
  \<^verbatim>\<open>df_tmp.columns = columns\<close> on a frame built from lists of strings: pandas raises
  ValueError unless the frame has as many columns as there are names. The frame
  \<^verbatim>\<open>pd.DataFrame()\<close> has no column, and \<^verbatim>\<open>pd.DataFrame(lines)\<close> has as many as its lines
  have items.
\<close>

definition row_of_items :: "string list \<Rightarrow> row option" where
  "row_of_items xs =
     (if length xs = length columns
      then Some \<lparr> log_date = Str (xs ! 0), log_time = Str (xs ! 1), s_ip = Str (xs ! 2),
                  cs_method = Str (xs ! 3), cs_uri_stem = Str (xs ! 4),
                  cs_uri_query = Str (xs ! 5), s_port = Str (xs ! 6),
                  cs_username = Str (xs ! 7), c_ip = Str (xs ! 8),
                  cs_user_agent = Str (xs ! 9), sc_status = Str (xs ! 10),
                  sc_substatus = Str (xs ! 11), sc_win32_status = Str (xs ! 12),
                  time_taken = Str (xs ! 13) \<rparr>
      else None)"

fun rows_of_lines :: "string list list \<Rightarrow> row list option" where
  "rows_of_lines [] = Some []"
| "rows_of_lines (l # ls) =
     (case row_of_items l of
        None \<Rightarrow> None
      | Some r \<Rightarrow> (case rows_of_lines ls of None \<Rightarrow> None | Some rs \<Rightarrow> Some (r # rs)))"

definition set_columns :: "string list list \<Rightarrow> error + row list" where
  "set_columns df =
     (if df = [] then Inl ValueError
      else (case rows_of_lines df of None \<Rightarrow> Inl ValueError | Some rs \<Rightarrow> Inr rs))"

section \<open>\<^verbatim>\<open>readFileTheHardWay\<close>\<close>

text \<open>
  \<^verbatim>\<open>f.readline()\<close> returns the text up to and including the next newline, the rest of
  the file when no newline is left, and the empty string at the end of the file. The
  file object is modelled by the text not yet read; \<open>readline\<close> returns the line and
  the text left after it.
\<close>

fun readline :: "string \<Rightarrow> string \<times> string" where
  "readline [] = ([], [])"
| "readline (c # cs) =
     (if c = newline then ([c], cs)
      else (case readline cs of (l, r) \<Rightarrow> (c # l, r)))"

lemma readline_append: "fst (readline s) @ snd (readline s) = s"
  by (induction s) (auto split: prod.splits)

lemma readline_shorter: "fst (readline s) \<noteq> [] \<Longrightarrow> length (snd (readline s)) < length s"
proof -
  assume ne: "fst (readline s) \<noteq> []"
  have "length s = length (fst (readline s)) + length (snd (readline s))"
    by (metis readline_append length_append)
  with ne show ?thesis by (cases "fst (readline s)") auto
qed

text \<open>
  The \<^verbatim>\<open>while linestr:\<close> loop. \<open>rest\<close> is the unread text and \<open>lines\<close> the list built
  so far.
\<close>

function read_loop :: "nat \<Rightarrow> string \<Rightarrow> string list list \<Rightarrow> string list list" where
  "read_loop numCols rest lines =
     (let linestr = fst (readline rest) in
      if linestr = [] then lines
      else read_loop numCols (snd (readline rest))
             (if take 1 linestr \<noteq> ''#''
              then (let lineitems = py_split (CHR '' '') linestr in
                    if length lineitems = numCols then lines @ [lineitems] else lines)
              else lines))"
  by pat_completeness auto
termination
  by (relation "measure (\<lambda>(n, rest, ls). length rest)") (auto simp: readline_shorter)

declare read_loop.simps [simp del]

text \<open>
  The file is opened with \<^verbatim>\<open>errors="replace"\<close>, so decoding never fails; \<open>content\<close> is
  the decoded text, \<open>None\<close> when the file cannot be opened. The function's own
  \<^verbatim>\<open>except\<close> then returns the empty frame it started with.
\<close>

definition readFileTheHardWay :: "string option \<Rightarrow> nat \<Rightarrow> string list list" where
  "readFileTheHardWay content numCols =
     (case content of
        None \<Rightarrow> []
      | Some text \<Rightarrow>
          (let lines = read_loop numCols text [] in
           if length lines > 0 then lines else []))"

text \<open>
  The lines of a text, for stating what the loop keeps: each line ends with its
  newline, but for a last line that has none.
\<close>

fun text_lines :: "string \<Rightarrow> string list" where
  "text_lines [] = []"
| "text_lines (c # cs) =
     (if c = newline then [c] # text_lines cs
      else (case text_lines cs of
              [] \<Rightarrow> [[c]]
            | l # ls \<Rightarrow> (c # l) # ls))"

text \<open>A line the fallback parser keeps: no comment, and the expected number of items.\<close>

definition well_formed :: "nat \<Rightarrow> string \<Rightarrow> bool" where
  "well_formed numCols l = (take 1 l \<noteq> ''#'' \<and> length (py_split (CHR '' '') l) = numCols)"

section \<open>\<^verbatim>\<open>readNewerLogs\<close>\<close>

text \<open>
  A file of the folder, as the function meets it: its path as \<^verbatim>\<open>os.path.join\<close> built
  it, what \<^verbatim>\<open>pd.read_csv(file, sep=" ", comment="#", header=None)\<close> followed by
  \<^verbatim>\<open>df_tmp.columns = columns\<close> yields (the rows of a frame of fourteen columns, or
  \<open>None\<close> when either statement raises, which sends control to the \<^verbatim>\<open>except\<close>
  branch), and the text of the file for the line-by-line reader (\<open>None\<close> when it
  cannot be opened).
\<close>

record logfile =
  path :: string
  read_csv :: "row list option"
  content :: "string option"

text \<open>Lines 190 to 192: the date in the file name, \<open>None\<close> when \<^verbatim>\<open>strptime\<close> raises.\<close>

definition file_date :: "logfile \<Rightarrow> date option" where
  "file_date f =
     (let sfName = rsplit1_last backslash (path f);
          sfDate = slice 4 10 sfName
      in strptime_ymd sfDate)"

text \<open>
  Lines 202 to 211: the frame of a file. When the fast path fails the file is read
  line by line, and naming the columns of the frame that comes back raises when that
  frame is empty; this second error is raised inside the handler of the first, so it
  leaves the loop.
\<close>

definition read_frame :: "logfile \<Rightarrow> error + row list" where
  "read_frame f =
     (case read_csv f of
        Some df_tmp \<Rightarrow> Inr df_tmp
      | None \<Rightarrow> set_columns (readFileTheHardWay (content f) (length columns)))"

text \<open>
  Line 218: the combined column, \<^verbatim>\<open>log_date.astype(str) + " " + log_time\<close>.
  \<^verbatim>\<open>astype(str)\<close> gives the text of a date, of a number the text Python prints, of a
  missing date the text \<^verbatim>\<open>nan\<close>. Adding a text as time gives a text, adding a missing
  time gives a missing value, and adding a number to a text raises TypeError.
\<close>

definition astype_str :: "cell \<Rightarrow> string" where
  "astype_str c = (case c of NaN \<Rightarrow> ''nan'' | Str s \<Rightarrow> s | Number n \<Rightarrow> n)"

definition combined :: "row \<Rightarrow> error + string option" where
  "combined r =
     (case log_time r of
        NaN \<Rightarrow> Inr None
      | Str t \<Rightarrow> Inr (Some (astype_str (log_date r) @ '' '' @ t))
      | Number n \<Rightarrow> Inl TypeError)"

fun combined_column :: "row list \<Rightarrow> error + string option list" where
  "combined_column [] = Inr []"
| "combined_column (r # rs) =
     bind (combined r) (\<lambda>c. bind (combined_column rs) (\<lambda>cs. Inr (c # cs)))"

definition datetime_column :: "date_reader \<Rightarrow> row list \<Rightarrow> error + datetime option list" where
  "datetime_column other df_tmp = bind (combined_column df_tmp) (pd_to_datetime other)"

text \<open>
  Lines 218 to 222: add the column, keep the rows where it is later than the
  watermark, drop the column. A comparison with NaT is false.
\<close>

definition later_than :: "datetime \<Rightarrow> datetime option \<Rightarrow> bool" where
  "later_than w t = (case t of None \<Rightarrow> False | Some x \<Rightarrow> w < x)"

definition boundary_filter :: "date_reader \<Rightarrow> datetime \<Rightarrow> row list \<Rightarrow> error + row list" where
  "boundary_filter other odatetimeLastStored df_tmp =
     bind (datetime_column other df_tmp)
       (\<lambda>col. Inr (map fst (filter (\<lambda>(r, t). later_than odatetimeLastStored t) (zip df_tmp col))))"

text \<open>
  Lines 225 to 228. On a column of dtype \<^verbatim>\<open>object\<close>, \<^verbatim>\<open>.str[:n]\<close> cuts a text to its
  first \<open>n\<close> characters and gives a missing value for a cell that is no text. On a
  column of any other dtype the accessor \<^verbatim>\<open>.str\<close> raises AttributeError. \<open>df_read\<close>
  is the frame as it was read, which fixes the dtypes; \<open>df_tmp\<close> holds the rows that
  are left of it.
\<close>

definition str_slice :: "nat \<Rightarrow> cell \<Rightarrow> cell" where
  "str_slice n c = (case c of Str s \<Rightarrow> Str (take n s) | NaN \<Rightarrow> NaN | Number x \<Rightarrow> NaN)"

definition truncate_row :: "row \<Rightarrow> row" where
  "truncate_row r =
     r\<lparr> cs_uri_stem := str_slice 499 (cs_uri_stem r),
        cs_uri_query := str_slice 255 (cs_uri_query r),
        cs_username := str_slice 255 (cs_username r),
        cs_user_agent := str_slice 399 (cs_user_agent r) \<rparr>"

definition str_columns :: "row list \<Rightarrow> bool" where
  "str_columns df_read =
     (object_dtype cs_uri_stem df_read \<and> object_dtype cs_uri_query df_read \<and>
      object_dtype cs_username df_read \<and> object_dtype cs_user_agent df_read)"

definition truncate_frame :: "row list \<Rightarrow> row list \<Rightarrow> error + row list" where
  "truncate_frame df_read df_tmp =
     (if str_columns df_read then Inr (map truncate_row df_tmp) else Inl AttributeError)"

text \<open>Lines 194 to 233, for a file the loop has decided to load: the frame appended to
  \<^verbatim>\<open>frames\<close>.\<close>

definition load_file :: "date_reader \<Rightarrow> datetime \<Rightarrow> date \<Rightarrow> logfile \<Rightarrow> error + row list" where
  "load_file other odatetimeLastStored oFileDate f =
     bind (read_frame f)
       (\<lambda>df_read.
          bind (if date_of odatetimeLastStored = oFileDate
                then boundary_filter other odatetimeLastStored df_read
                else Inr df_read)
            (\<lambda>df_tmp. truncate_frame df_read df_tmp))"

text \<open>The \<^verbatim>\<open>for file in files\<close> loop; \<open>frames\<close> is the list of frames so far. An
  exception ends the loop.\<close>

fun files_loop ::
  "date_reader \<Rightarrow> datetime \<Rightarrow> logfile list \<Rightarrow> row list list \<Rightarrow> error + row list list" where
  "files_loop other odatetimeLastStored [] frames = Inr frames"
| "files_loop other odatetimeLastStored (f # files) frames =
     (case file_date f of
        None \<Rightarrow> Inl ValueError
      | Some oFileDate \<Rightarrow>
          (if oFileDate \<ge> date_of odatetimeLastStored
           then bind (load_file other odatetimeLastStored oFileDate f)
                  (\<lambda>df_tmp. files_loop other odatetimeLastStored files (frames @ [df_tmp]))
           else files_loop other odatetimeLastStored files frames))"

text \<open>
  The function. \<open>folder\<close> is the list of the regular files of the folder, \<open>None\<close> when
  listing it raises. The frame to return is empty from the start and is filled only
  after the loop, so the \<^verbatim>\<open>except\<close> branch, which returns it, returns no row.
\<close>

definition readNewerLogs :: "date_reader \<Rightarrow> logfile list option \<Rightarrow> datetime \<Rightarrow> row list" where
  "readNewerLogs other folder odatetimeLastStored =
     (case folder of
        None \<Rightarrow> []
      | Some files \<Rightarrow>
          (case files_loop other odatetimeLastStored files [] of
             Inl e \<Rightarrow> []
           | Inr frames \<Rightarrow> (if frames \<noteq> [] then concat frames else [])))"

section \<open>The data store\<close>

text \<open>
  The tables, as far as the queries read them: of a row of the log table its
  \<^verbatim>\<open>log_date\<close>, \<^verbatim>\<open>log_time\<close> and \<^verbatim>\<open>c_ip\<close>, of a row of the geolocation table its
  \<^verbatim>\<open>ip\<close> and \<^verbatim>\<open>country\<close>. \<open>reachable\<close> is false when \<^verbatim>\<open>psycopg2.connect\<close> (or the
  query) raises \<^verbatim>\<open>psycopg2.Error\<close>.
\<close>

record database =
  reachable :: bool
  logs :: "(date \<times> time_of_day \<times> string) list"
  geolocation :: "(string \<times> string) list"

fun list_max :: "'a::linorder list \<Rightarrow> 'a option" where
  "list_max [] = None"
| "list_max (x # xs) = (case list_max xs of None \<Rightarrow> Some x | Some m \<Rightarrow> Some (max x m))"

text \<open>
  \<^verbatim>\<open>SELECT log_date, MAX(log_time) FROM t WHERE log_date IN (SELECT MAX(log_date) FROM t)
  GROUP BY log_date\<close>: no row for an empty table, else the one row of the latest date and
  the latest time on that date.
\<close>

definition select_last_date_time :: "(date \<times> time_of_day \<times> string) list \<Rightarrow> (date \<times> time_of_day) list" where
  "select_last_date_time t =
     (case list_max (map fst t) of
        None \<Rightarrow> []
      | Some d \<Rightarrow>
          (case list_max (map (\<lambda>r. fst (snd r)) (filter (\<lambda>r. fst r = d) t)) of
             None \<Rightarrow> []
           | Some tm \<Rightarrow> [(d, tm)]))"

definition early_default :: datetime where
  "early_default = ((1972, 6, 30), (0, 0, 0))"

text \<open>\<^verbatim>\<open>readLastDateTimeProcessed\<close>: \<open>None\<close> is Python's \<^verbatim>\<open>None\<close>, returned by both
  \<^verbatim>\<open>except\<close> branches.\<close>

definition readLastDateTimeProcessed :: "database \<Rightarrow> datetime option" where
  "readLastDateTimeProcessed db =
     (if \<not> reachable db then None
      else (case select_last_date_time (logs db) of
              [] \<Rightarrow> Some early_default
            | (oLogDate, oLogTime) # rows \<Rightarrow> Some (oLogDate, oLogTime)))"

text \<open>
  \<^verbatim>\<open>SELECT DISTINCT c_ip FROM logs WHERE c_ip NOT IN (SELECT ip FROM geolocation)\<close>,
  in some order, and \<^verbatim>\<open>getIPsToLookup\<close>, whose \<^verbatim>\<open>except\<close> branches return the list
  it started with.
\<close>

definition select_new_ips :: "database \<Rightarrow> string list" where
  "select_new_ips db =
     remdups (filter (\<lambda>ip. ip \<notin> set (map fst (geolocation db)))
                (map (\<lambda>r. snd (snd r)) (logs db)))"

definition getIPsToLookup :: "database \<Rightarrow> string list" where
  "getIPsToLookup db =
     (let returnList = [] in
      if \<not> reachable db then returnList
      else returnList @ select_new_ips db)"

section \<open>The filters of the main block of \<^verbatim>\<open>ReadIISLogs\<close>\<close>

text \<open>
  \<^verbatim>\<open>df.where(cond)\<close> keeps a row where the condition holds and replaces every cell of
  any other row by NaN; \<^verbatim>\<open>dropna()\<close> drops every row that has a NaN cell.
  \<^verbatim>\<open>df["cs_method"] == m\<close> holds for a cell that is the text \<open>m\<close>.
\<close>

definition nan_row :: row where
  "nan_row =
     \<lparr> log_date = NaN, log_time = NaN, s_ip = NaN, cs_method = NaN, cs_uri_stem = NaN,
       cs_uri_query = NaN, s_port = NaN, cs_username = NaN, c_ip = NaN,
       cs_user_agent = NaN, sc_status = NaN, sc_substatus = NaN,
       sc_win32_status = NaN, time_taken = NaN \<rparr>"

definition has_nan :: "row \<Rightarrow> bool" where
  "has_nan r =
     (log_date r = NaN \<or> log_time r = NaN \<or> s_ip r = NaN \<or> cs_method r = NaN \<or>
      cs_uri_stem r = NaN \<or> cs_uri_query r = NaN \<or> s_port r = NaN \<or>
      cs_username r = NaN \<or> c_ip r = NaN \<or> cs_user_agent r = NaN \<or>
      sc_status r = NaN \<or> sc_substatus r = NaN \<or> sc_win32_status r = NaN \<or>
      time_taken r = NaN)"

definition df_where :: "(row \<Rightarrow> bool) \<Rightarrow> row list \<Rightarrow> row list" where
  "df_where cond df = map (\<lambda>r. if cond r then r else nan_row) df"

definition dropna :: "row list \<Rightarrow> row list" where
  "dropna df = filter (\<lambda>r. \<not> has_nan r) df"

definition method_is :: "string \<Rightarrow> row \<Rightarrow> bool" where
  "method_is m r = (cs_method r = Str m)"

text \<open>
  \<^verbatim>\<open>.str.contains(pat)\<close> compiles \<open>pat\<close> as a regular expression, which raises
  \<^verbatim>\<open>re.error\<close> for a string that is none, and searches each text of the column for it;
  for \<^verbatim>\<open>where\<close>, a cell that is no text does not satisfy the condition. A string
  without any of the special characters of regular expressions matches itself and
  nothing else, so searching for it is the test whether it occurs in the text. What
  a string with special characters matches is left to the regular expression engine,
  the parameter \<open>engine\<close>: it gives the search of a string it can compile, and
  \<open>None\<close> for one it cannot.
\<close>

type_synonym regex_engine = "string \<Rightarrow> (string \<Rightarrow> bool) option"

definition special_characters :: string where
  "special_characters = ''.^$*+?{}[]|()'' @ [backslash]"

definition is_literal :: "string \<Rightarrow> bool" where
  "is_literal pat = list_all (\<lambda>c. c \<notin> set special_characters) pat"

definition re_compile :: "regex_engine \<Rightarrow> string \<Rightarrow> (string \<Rightarrow> bool) option" where
  "re_compile engine pat = (if is_literal pat then Some (contains pat) else engine pat)"

definition str_contains :: "(string \<Rightarrow> bool) \<Rightarrow> row \<Rightarrow> bool" where
  "str_contains search r =
     (case cs_uri_stem r of Str s \<Rightarrow> search s | NaN \<Rightarrow> False | Number n \<Rightarrow> False)"

text \<open>
  Lines 374 to 395. The frame the main block filters is one that \<^verbatim>\<open>readNewerLogs\<close>
  returned and that is not empty; the truncation step has used \<^verbatim>\<open>.str\<close> on the column
  \<^verbatim>\<open>cs_uri_stem\<close> of every file in it, so the column has dtype \<^verbatim>\<open>object\<close> and \<^verbatim>\<open>.str\<close>
  does not raise here.
\<close>

definition filter_rows :: "regex_engine \<Rightarrow> string \<Rightarrow> string \<Rightarrow> row list \<Rightarrow> error + row list" where
  "filter_rows engine method_to_filter uri_to_filter df_logs =
     (if length method_to_filter > 0 \<and> length uri_to_filter > 0
      then (let df_logs_Method = dropna (df_where (method_is method_to_filter) df_logs)
            in case re_compile engine uri_to_filter of
                 None \<Rightarrow> Inl RegexError
               | Some search \<Rightarrow> Inr (dropna (df_where (str_contains search) df_logs_Method)))
      else if length method_to_filter > 0
      then Inr (dropna (df_where (method_is method_to_filter) df_logs))
      else if length uri_to_filter > 0
      then (case re_compile engine uri_to_filter of
              None \<Rightarrow> Inl RegexError
            | Some search \<Rightarrow> Inr (dropna (df_where (str_contains search) df_logs)))
      else Inr df_logs)"

section \<open>The main blocks\<close>

text \<open>
  A run of a script is modelled by the list of its observable actions, in order: the
  calls of \<^verbatim>\<open>logging.info\<close>, \<^verbatim>\<open>logging.error\<close> and \<^verbatim>\<open>print\<close> that the main block itself
  makes (each with the fixed part of its message), the rows it appends to a table, the
  call of the report step, and the traceback of an exception that nothing catches, which
  ends the run. The messages that the called functions log on their way are left out;
  every one of them falls inside the \<^verbatim>\<open>try\<close> block. Elapsed times are wall-clock values
  and are not part of a message here.
\<close>

datatype event =
    Info string
  | LogError string
  | Print string
  | AppendLogs "row list"
  | AppendGeolocation "(string \<times> string) list"
  | Report string
  | Traceback error

text \<open>
  The last statements of both scripts, the \<^verbatim>\<open>finally\<close> block. Its first statement
  evaluates \<^verbatim>\<open>Util.timeElapsed(time_ScriptStarted)\<close>; \<open>started\<close> says whether the
  assignment \<^verbatim>\<open>time_ScriptStarted = Util.get_StartTime()\<close> was reached. When it was not,
  the name is unbound, the evaluation raises NameError before anything is logged, and
  the exception leaves the script.
\<close>

definition total_run_time :: "event list" where
  "total_run_time =
     [Info ''=== TOTAL SCRIPT RUN TIME ===>: '', Print ''=== TOTAL SCRIPT RUN TIME ===>: '']"

definition finally_block :: "bool \<Rightarrow> event list" where
  "finally_block started =
     (if started
      then total_run_time @ [Info ''------------------------- Processing Complete -------------------------'']
      else [Traceback NameError])"

text \<open>The \<^verbatim>\<open>except\<close> block of both scripts: it logs the captured exception.\<close>

definition except_block :: "error option \<Rightarrow> event list" where
  "except_block raised = (case raised of None \<Rightarrow> [] | Some e \<Rightarrow> [LogError ''### ERROR ### ''])"

subsection \<open>\<^verbatim>\<open>ReadIISLogs\<close>\<close>

text \<open>
  What a run of \<^verbatim>\<open>ReadIISLogs\<close> depends on: the dictionary unpickled from
  \<^verbatim>\<open>config.pkl\<close> (\<open>None\<close> when the file cannot be opened or read), whether the log
  directory it names exists, the three arguments, the data store, whether
  \<^verbatim>\<open>Util.writeDataFrametoDB\<close> raises, and the two parts of the libraries left open
  above.
\<close>

record iis_run =
  config :: "(string \<times> string) list option"
  log_dir_exists :: bool
  iis_log_folder :: "logfile list option"
  method_to_filter :: string
  uri_to_filter :: string
  store :: database
  write_fails :: bool
  other_dates :: date_reader
  regex :: regex_engine

definition has_keys :: "(string \<times> string) list \<Rightarrow> string list \<Rightarrow> bool" where
  "has_keys myConfig ks = list_all (\<lambda>k. map_of myConfig k \<noteq> None) ks"

definition report_name :: "string \<Rightarrow> string \<Rightarrow> string" where
  "report_name m u =
     ''Report'' @ (if length m > 0 then ''-'' @ m else []) @
     (if length u > 0 then ''-'' @ map (\<lambda>c. if c = CHR ''/'' then CHR ''_'' else c) u else []) @
     ''.txt''"

text \<open>Lines 345 to 429, the part of the \<^verbatim>\<open>try\<close> block after the start time is taken:
  its actions, and the exception that ends it, if any. \<^verbatim>\<open>queryDB\<close> and \<^verbatim>\<open>writeDFtoFile\<close>
  catch every exception themselves.\<close>

definition process_logs :: "iis_run \<Rightarrow> (string \<times> string) list \<Rightarrow> event list \<times> error option" where
  "process_logs r myConfig =
     (if \<not> has_keys myConfig [''dbname'', ''dbuser'', ''dbpassword'', ''dbhost'', ''logstable'', ''geolocatetable'']
      then ([], Some KeyError)
      else (case readLastDateTimeProcessed (store r) of
              None \<Rightarrow> ([], None)
            | Some lastDateTimeProcessed \<Rightarrow>
                (let df_logs = readNewerLogs (other_dates r) (iis_log_folder r) lastDateTimeProcessed in
                 if df_logs = []
                 then ([Info ''NO NEW LOG DATA FOUND!'', Print ''NO NEW LOG DATA FOUND!''], None)
                 else (let reducing = [Info ''Reducing dataframe rows based on method and URI parameters...'',
                                       Print ''Reducing dataframe rows based on method and URI parameters...'']
                       in case filter_rows (regex r) (method_to_filter r) (uri_to_filter r) df_logs of
                            Inl e \<Rightarrow> (reducing, Some e)
                          | Inr df_logs_Filtered \<Rightarrow>
                              (let reduced = reducing @ [Info ''=== RUN TIME TO READ LOG FILES ===>: '',
                                                         Print ''=== RUN TIME TO READ LOG FILES ===>: '']
                               in if df_logs_Filtered \<noteq> []
                                  then (let about = reduced @ [Info '' log rows about to be written to the database.'',
                                                              Print '' log rows about to be written to the database.'']
                                        in if write_fails r then (about, Some DatabaseError)
                                           else (let written = about @ [AppendLogs df_logs_Filtered,
                                                                        Info ''=== RUN TIME TO WRITE LOGS TO DB ===>: '',
                                                                        Print ''=== RUN TIME TO WRITE LOGS TO DB ===>: '']
                                                 in if \<not> has_keys myConfig [''ReportPath'']
                                                    then (written, Some KeyError)
                                                    else (written @ [Report (report_name (method_to_filter r) (uri_to_filter r))], None)))
                                  else (reduced @ [Info ''NO LOG ROWS FOUND FOR WRITING TO DATABASE.'',
                                                   Print ''NO LOG ROWS FOUND FOR WRITING TO DATABASE.''], None))))))"

text \<open>Lines 323 to 429, the \<^verbatim>\<open>try\<close> block: its actions, whether the start time was
  taken, and the exception that ends it, if any.\<close>

definition try_block :: "iis_run \<Rightarrow> event list \<times> bool \<times> error option" where
  "try_block r =
     (case config r of
        None \<Rightarrow> ([], False, Some OSError)
      | Some myConfig \<Rightarrow>
          (if \<not> has_keys myConfig [''logFileDir''] then ([], False, Some KeyError)
           else if \<not> log_dir_exists r then ([], False, Some OSError)
           else (case process_logs r myConfig of
                   (evs, raised) \<Rightarrow>
                     ([Info ''------------------------- Processing Starting -------------------------'',
                       Info ''Logging level set to: ''] @ evs, True, raised))))"

definition main :: "iis_run \<Rightarrow> event list" where
  "main r =
     (case try_block r of
        (evs, started, raised) \<Rightarrow> evs @ except_block raised @ finally_block started)"

subsection \<open>\<^verbatim>\<open>GeolocateIPs\<close>\<close>

text \<open>
  What \<^verbatim>\<open>geoip2Reader.country(theIP)\<close> does: it returns a response whose country name
  is a string or \<^verbatim>\<open>None\<close>, raises \<^verbatim>\<open>AddressNotFoundError\<close>, or raises something else.
  \<^verbatim>\<open>geolocateIP\<close> returns the list \<^verbatim>\<open>[ip, country_name]\<close> or the empty list, here an
  optional pair; \<^verbatim>\<open>len(None)\<close> raises TypeError, which the outer \<^verbatim>\<open>except\<close> catches.
\<close>

datatype lookup = Country "string option" | AddressNotFound | LookupFailure

definition geolocateIP :: "string \<Rightarrow> (string \<Rightarrow> lookup) \<Rightarrow> (string \<times> string) option" where
  "geolocateIP theIP geoip2Reader =
     (case geoip2Reader theIP of
        Country (Some country_name) \<Rightarrow>
          (if length country_name > 0 then Some (theIP, country_name) else None)
      | Country None \<Rightarrow> None
      | AddressNotFound \<Rightarrow> None
      | LookupFailure \<Rightarrow> None)"

record geo_run =
  geo_config :: "(string \<times> string) list option"
  geo_log_dir_exists :: bool
  geo_store :: database
  country_reader :: "(string \<Rightarrow> lookup) option"
  geo_write_fails :: bool

fun lookup_loop :: "(string \<Rightarrow> lookup) \<Rightarrow> string list \<Rightarrow> (string \<times> string) list \<Rightarrow> (string \<times> string) list" where
  "lookup_loop countryReader [] nestedlstLocatedIPs = nestedlstLocatedIPs"
| "lookup_loop countryReader (ip # ips) nestedlstLocatedIPs =
     (case geolocateIP ip countryReader of
        Some tmplst \<Rightarrow> lookup_loop countryReader ips (nestedlstLocatedIPs @ [tmplst])
      | None \<Rightarrow> lookup_loop countryReader ips nestedlstLocatedIPs)"

definition locate_ips :: "geo_run \<Rightarrow> (string \<times> string) list \<Rightarrow> event list \<times> error option" where
  "locate_ips r myConfig =
     (if \<not> has_keys myConfig [''dbname'', ''dbuser'', ''dbpassword'', ''dbhost'', ''logstable'',
                                ''geolocatetable'', ''IPDBPathFile'']
      then ([], Some KeyError)
      else (let lstIPsTolookup = getIPsToLookup (geo_store r);
                found = [Info '' IPs found that need to be looked up!'']
            in if length lstIPsTolookup > 0
               then (case country_reader r of
                       None \<Rightarrow> (found, Some OSError)
                     | Some countryReader \<Rightarrow>
                         (let nestedlstLocatedIPs = lookup_loop countryReader lstIPsTolookup [] in
                          if length nestedlstLocatedIPs > 0
                          then (let about = found @ [Info '' rows about to be written to the database.'',
                                                     Print '' log rows about to be written to the database.'']
                                in if geo_write_fails r then (about, Some DatabaseError)
                                   else (about @ [AppendGeolocation nestedlstLocatedIPs], None))
                          else (found @ [Info ''No successful GeoLocation lookups!'',
                                         Print ''No successful GeoLocation lookups!''], None)))
               else (found @ [Info ''NO IPs FOUND TO LOOKUP.'', Print ''NO IPs FOUND TO LOOKUP.''], None)))"

definition geo_try_block :: "geo_run \<Rightarrow> event list \<times> bool \<times> error option" where
  "geo_try_block r =
     (case geo_config r of
        None \<Rightarrow> ([], False, Some OSError)
      | Some myConfig \<Rightarrow>
          (if \<not> has_keys myConfig [''logFileDir''] then ([], False, Some KeyError)
           else if \<not> geo_log_dir_exists r then ([], False, Some OSError)
           else (case locate_ips r myConfig of
                   (evs, raised) \<Rightarrow>
                     ([Info ''------------------------- Processing Starting -------------------------''] @ evs,
                      True, raised))))"

definition geo_main :: "geo_run \<Rightarrow> event list" where
  "geo_main r =
     (case geo_try_block r of
        (evs, started, raised) \<Rightarrow> evs @ except_block raised @ finally_block started)"

section \<open>Notions for stating the properties\<close>

text \<open>The length of the text of a cell; a cell that is no text has none.\<close>

definition cell_len :: "cell \<Rightarrow> nat" where
  "cell_len c = (case c of Str s \<Rightarrow> length s | NaN \<Rightarrow> 0 | Number n \<Rightarrow> 0)"

text \<open>
  The combined cell of a row, and the combined timestamp of a row that is written in
  the form of the log files. A row is \<open>readable\<close> when its combined cell is such a
  timestamp or is missing.
\<close>

definition combined_text :: "row \<Rightarrow> string option" where
  "combined_text r = (case combined r of Inl e \<Rightarrow> None | Inr c \<Rightarrow> c)"

definition row_time :: "row \<Rightarrow> datetime option" where
  "row_time r = iso_cell (combined_text r)"

definition readable :: "row \<Rightarrow> bool" where
  "readable r = (case combined r of Inl e \<Rightarrow> False | Inr c \<Rightarrow> iso_or_missing c)"

text \<open>The positions of a frame whose timestamp, in the column \<open>ts\<close>, is later than the
  watermark, and the rows at given positions.\<close>

definition later_positions :: "datetime \<Rightarrow> datetime option list \<Rightarrow> nat list" where
  "later_positions w ts = filter (\<lambda>i. later_than w (ts ! i)) [0..<length ts]"

definition rows_at :: "row list \<Rightarrow> nat list \<Rightarrow> row list" where
  "rows_at df ps = map (\<lambda>i. df ! i) ps"

text \<open>The rows of a file, as lines 202 to 211 read them, and the rows of all files.\<close>

definition file_rows :: "logfile \<Rightarrow> row list" where
  "file_rows f = (case read_frame f of Inl e \<Rightarrow> [] | Inr df \<Rightarrow> df)"

definition all_rows :: "logfile list \<Rightarrow> row list" where
  "all_rows files = concat (map file_rows files)"

text \<open>
  \<open>is_max_timestamp files w\<close>: \<open>w\<close> is the maximum combined timestamp over all rows of
  the files; every row has a timestamp, none is later than \<open>w\<close>, and one is \<open>w\<close>.
\<close>

definition not_later :: "datetime \<Rightarrow> row \<Rightarrow> bool" where
  "not_later w r = (case row_time r of None \<Rightarrow> False | Some t \<Rightarrow> t \<le> w)"

definition is_max_timestamp :: "logfile list \<Rightarrow> datetime \<Rightarrow> bool" where
  "is_max_timestamp files w =
     (list_ex (\<lambda>r. row_time r = Some w) (all_rows files) \<and> list_all (not_later w) (all_rows files))"

text \<open>
  \<open>rows_not_before_name f\<close>: no row of the file is dated earlier than the date in the
  name of the file.
\<close>

definition not_before :: "date \<Rightarrow> row \<Rightarrow> bool" where
  "not_before d r = (case row_time r of None \<Rightarrow> False | Some t \<Rightarrow> d \<le> date_of t)"

definition rows_not_before_name :: "logfile \<Rightarrow> bool" where
  "rows_not_before_name f =
     (case file_date f of None \<Rightarrow> True | Some d \<Rightarrow> list_all (not_before d) (file_rows f))"

text \<open>Two rows whose cells in the four truncated columns are of the same kind, text or
  not, whatever the texts are.\<close>

definition same_kinds :: "row \<Rightarrow> row \<Rightarrow> bool" where
  "same_kinds r r' =
     (is_text (cs_uri_stem r) = is_text (cs_uri_stem r') \<and>
      is_text (cs_uri_query r) = is_text (cs_uri_query r') \<and>
      is_text (cs_username r) = is_text (cs_username r') \<and>
      is_text (cs_user_agent r) = is_text (cs_user_agent r'))"

text \<open>The URI stem of a row is a text in which \<open>u\<close> occurs.\<close>

definition stem_contains :: "string \<Rightarrow> row \<Rightarrow> bool" where
  "stem_contains u r = str_contains (contains u) r"

text \<open>Two rows that differ at most in the texts of the four truncated columns.\<close>

definition same_but_texts :: "row \<Rightarrow> row \<Rightarrow> bool" where
  "same_but_texts r r' =
     (same_kinds r r' \<and>
      r'\<lparr> cs_uri_stem := cs_uri_stem r, cs_uri_query := cs_uri_query r,
         cs_username := cs_username r, cs_user_agent := cs_user_agent r \<rparr> = r)"

section \<open>Sample data\<close>

text \<open>A row as \<^verbatim>\<open>pd.read_csv\<close> reads it from a log line: the port, the three status
  codes and the time taken are numbers.\<close>

definition sample_row :: "string \<Rightarrow> string \<Rightarrow> string \<Rightarrow> string \<Rightarrow> row" where
  "sample_row d t m u =
     \<lparr> log_date = Str d, log_time = Str t, s_ip = Str ''10.0.0.5'',
       cs_method = Str m, cs_uri_stem = Str u, cs_uri_query = Str ''-'',
       s_port = Number ''443'', cs_username = Str ''-'', c_ip = Str ''1.1.1.1'',
       cs_user_agent = Str ''Mozilla/5.0'', sc_status = Number ''200'',
       sc_substatus = Number ''0'', sc_win32_status = Number ''0'', time_taken = Number ''15'' \<rparr>"

definition log_path :: "string \<Rightarrow> string" where
  "log_path name = ''C:'' @ [backslash] @ ''logs'' @ [backslash] @ name"

definition watermark :: datetime where
  "watermark = ((2024, 4, 19), (10, 0, 0))"

text \<open>A pandas that reads no form but that of the log files. The columns of the samples
  below are in that form, but for the one row whose time reads \<^verbatim>\<open>xx:yy:zz\<close>, which
  pandas does not read as a time either.\<close>

definition only_log_form :: date_reader where
  "only_log_form col = Inl ValueError"

definition row_at_watermark :: row where
  "row_at_watermark = sample_row ''2024-04-19'' ''10:00:00'' ''GET'' ''/a/b''"

definition row_one_second_later :: row where
  "row_one_second_later = sample_row ''2024-04-19'' ''10:00:01'' ''POST'' ''/c/d''"

definition row_day_before :: row where
  "row_day_before = sample_row ''2024-04-18'' ''23:59:59'' ''GET'' ''/a/b''"

definition row_day_after :: row where
  "row_day_after = sample_row ''2024-04-20'' ''00:00:07'' ''GET'' ''/c/d''"

definition garbled_row :: row where
  "garbled_row = sample_row ''2024-04-19'' ''xx:yy:zz'' ''GET'' ''/a/b''"

definition boundary_file :: logfile where
  "boundary_file =
     \<lparr> path = log_path ''u_ex240419.log'',
       read_csv = Some [row_at_watermark, row_one_second_later],
       content = None \<rparr>"

definition garbled_file :: logfile where
  "garbled_file =
     \<lparr> path = log_path ''u_ex240419.log'',
       read_csv = Some [row_one_second_later, garbled_row],
       content = None \<rparr>"

definition older_file :: logfile where
  "older_file =
     \<lparr> path = log_path ''u_ex240418.log'', read_csv = Some [row_day_before], content = None \<rparr>"

definition newer_file :: logfile where
  "newer_file =
     \<lparr> path = log_path ''u_ex240420.log'', read_csv = Some [row_day_after], content = None \<rparr>"

text \<open>A file named for the 20th that holds a row of the 19th, as a server that names
  its files by local time and writes its rows in UTC produces.\<close>

definition late_named_file :: logfile where
  "late_named_file =
     \<lparr> path = log_path ''u_ex240420.log'', read_csv = Some [row_at_watermark], content = None \<rparr>"

definition misnamed_file :: logfile where
  "misnamed_file =
     \<lparr> path = log_path ''readme.txt'', read_csv = Some [row_day_after], content = None \<rparr>"

definition long_row :: row where
  "long_row = sample_row ''2024-04-20'' ''00:00:07'' ''GET'' (replicate 600 (CHR ''a''))"

definition long_file :: logfile where
  "long_file =
     \<lparr> path = log_path ''u_ex240420.log'', read_csv = Some [long_row], content = None \<rparr>"

text \<open>The row of the log line
  \<^verbatim>\<open>2024-04-19 10:00:01 10.0.0.5 GET /a/b null 443 - 1.1.1.1 Mozilla/5.0 200 0 0 15\<close>,
  a request for \<^verbatim>\<open>/a/b?null\<close>: \<^verbatim>\<open>pd.read_csv\<close> reads the query \<^verbatim>\<open>null\<close> as NaN. In
  \<open>null_query_file\<close> it stands beside a row with a query of \<^verbatim>\<open>-\<close>, so the column
  holds text; in \<open>only_null_query_file\<close> it stands alone, and the column has dtype
  \<^verbatim>\<open>float64\<close>.\<close>

definition row_with_null_query :: row where
  "row_with_null_query =
     (sample_row ''2024-04-19'' ''10:00:01'' ''GET'' ''/a/b'')\<lparr> cs_uri_query := NaN \<rparr>"

definition null_query_file :: logfile where
  "null_query_file =
     \<lparr> path = log_path ''u_ex240419.log'',
       read_csv = Some [row_with_null_query, row_at_watermark],
       content = None \<rparr>"

definition only_null_query_file :: logfile where
  "only_null_query_file =
     \<lparr> path = log_path ''u_ex240419.log'', read_csv = Some [row_with_null_query], content = None \<rparr>"

definition row_without_method :: row where
  "row_without_method = sample_row ''2024-04-19'' ''10:00:02'' [] ''/a/b''"

definition config_pkl :: "(string \<times> string) list" where
  "config_pkl =
     [(''dbname'', ''iis_logs''), (''dbuser'', ''postgres''), (''dbpassword'', ''secret''),
      (''dbhost'', ''localhost''), (''logstable'', ''sar''), (''geolocatetable'', ''geolocation''),
      (''logFileDir'', ''C:/LG''), (''IPDBPathFile'', ''C:/LG/GeoLite2-Country.mmdb''),
      (''ReportPath'', ''C:/LG/'')]"

definition empty_store :: database where
  "empty_store = \<lparr> reachable = True, logs = [], geolocation = [] \<rparr>"

definition unreachable_store :: database where
  "unreachable_store = \<lparr> reachable = False, logs = [], geolocation = [] \<rparr>"

section \<open>The fallback parser keeps the well-formed lines\<close>

lemma readline_empty: "fst (readline s) = [] \<longleftrightarrow> s = []"
  by (cases s) (auto split: prod.splits)

lemma text_lines_readline:
  "s \<noteq> [] \<Longrightarrow> text_lines s = fst (readline s) # text_lines (snd (readline s))"
proof (induction s)
  case Nil
  then show ?case by simp
next
  case (Cons c cs)
  show ?case
  proof (cases "c = newline")
    case True
    then show ?thesis by simp
  next
    case False
    show ?thesis
    proof (cases cs)
      case Nil
      with False show ?thesis by simp
    next
      case (Cons d ds)
      with Cons.IH have "text_lines cs = fst (readline cs) # text_lines (snd (readline cs))"
        by simp
      with False show ?thesis by (simp split: prod.splits)
    qed
  qed
qed

lemma text_lines_concat: "concat (text_lines s) = s"
  by (induction s) (auto split: list.splits)

lemma text_lines_nonempty: "l \<in> set (text_lines s) \<Longrightarrow> l \<noteq> []"
  by (induction s arbitrary: l) (auto split: list.splits if_splits)

lemma read_loop_filter:
  "read_loop numCols rest lines =
     lines @ map (py_split (CHR '' '')) (filter (well_formed numCols) (text_lines rest))"
proof (induction numCols rest lines rule: read_loop.induct)
  case (1 numCols rest lines)
  show ?case
  proof (cases "rest = []")
    case True
    then show ?thesis by (subst read_loop.simps) simp
  next
    case False
    then have ne: "fst (readline rest) \<noteq> []" by (simp add: readline_empty)
    note IH = "1.IH" [OF refl ne]
    from False have tl: "text_lines rest = fst (readline rest) # text_lines (snd (readline rest))"
      by (rule text_lines_readline)
    let ?L = "(if take 1 (fst (readline rest)) \<noteq> ''#''
              then (let lineitems = py_split (CHR '' '') (fst (readline rest)) in
                    if length lineitems = numCols then lines @ [lineitems] else lines)
              else lines)"
    have "read_loop numCols rest lines = read_loop numCols (snd (readline rest)) ?L"
      using ne by (subst read_loop.simps) (simp add: Let_def)
    also have "\<dots> = ?L @ map (py_split (CHR '' ''))
                          (filter (well_formed numCols) (text_lines (snd (readline rest))))"
      by (rule IH)
    also have "\<dots> = lines @ map (py_split (CHR '' ''))
                          (filter (well_formed numCols) (text_lines rest))"
      by (subst tl) (simp add: well_formed_def Let_def)
    finally show ?thesis .
  qed
qed

text \<open>
  C4. Whatever the text of the file and the expected number of columns, the fallback
  parser returns, in order, the split of exactly those lines that do not start with
  \<^verbatim>\<open>#\<close> and that split on single spaces into the expected number of items. So a
  file with N such lines yields N rows, however many other lines it has, and the
  function returns a frame for every text: a malformed line is passed over.
\<close>

theorem hard_way_keeps_well_formed_lines:
  "readFileTheHardWay (Some body) numCols =
     map (py_split (CHR '' '')) (filter (well_formed numCols) (text_lines body)) \<and>
   length (readFileTheHardWay (Some body) numCols) =
     length (filter (well_formed numCols) (text_lines body)) \<and>
   well_formed numCols l =
     (take 1 l \<noteq> ''#'' \<and> length (py_split (CHR '' '') l) = numCols)"
  by (simp add: readFileTheHardWay_def read_loop_filter Let_def well_formed_def)

section \<open>Lemmas about the file loop\<close>

lemma bind_Inr [simp]: "bind (Inr x) f = f x"
  by (simp add: bind_def)

lemma bind_Inl [simp]: "bind (Inl e) f = Inl e"
  by (simp add: bind_def)

lemma cell_len_str_slice: "cell_len (str_slice n c) \<le> n"
  by (cases c) (simp_all add: cell_len_def str_slice_def)

lemma combined_column_length: "combined_column df = Inr cs \<Longrightarrow> length cs = length df"
proof (induction df arbitrary: cs)
  case Nil
  then show ?case by simp
next
  case (Cons r rs)
  then show ?case
    by (cases "combined r"; cases "combined_column rs") auto
qed

lemma pd_to_datetime_length: "pd_to_datetime other cs = Inr ts \<Longrightarrow> length ts = length cs"
  by (auto simp: pd_to_datetime_def split: if_splits sum.splits)

lemma datetime_column_length: "datetime_column other df = Inr ts \<Longrightarrow> length ts = length df"
proof -
  assume a: "datetime_column other df = Inr ts"
  then obtain cs where cs: "combined_column df = Inr cs"
    by (cases "combined_column df") (auto simp: datetime_column_def)
  with a have "pd_to_datetime other cs = Inr ts" by (simp add: datetime_column_def)
  then show ?thesis using combined_column_length [OF cs] pd_to_datetime_length by fastforce
qed

lemma combined_column_readable:
  "list_all readable df \<Longrightarrow> combined_column df = Inr (map combined_text df)"
  by (induction df) (auto simp: readable_def combined_text_def split: sum.splits)

lemma datetime_column_readable:
  "list_all readable df \<Longrightarrow> datetime_column other df = Inr (map row_time df)"
proof -
  assume a: "list_all readable df"
  then have "list_all iso_or_missing (map combined_text df)"
    by (auto simp: list_all_iff readable_def combined_text_def split: sum.splits)
  with combined_column_readable [OF a] show ?thesis
    by (simp add: datetime_column_def pd_to_datetime_def row_time_def)
qed

lemma zip_as_positions:
  "length ts = length df \<Longrightarrow> zip df ts = map (\<lambda>i. (df ! i, ts ! i)) [0..<length df]"
  by (rule nth_equalityI) simp_all

lemma selected_rows:
  "length ts = length df \<Longrightarrow>
   map fst (filter (\<lambda>(r, t). P t) (zip df ts)) = rows_at df (filter (\<lambda>i. P (ts ! i)) [0..<length ts])"
  by (simp add: zip_as_positions filter_map comp_def rows_at_def)

lemma boundary_filter_positions:
  "datetime_column other df = Inr ts \<Longrightarrow>
   boundary_filter other w df = Inr (rows_at df (later_positions w ts))"
  by (simp add: boundary_filter_def later_positions_def selected_rows datetime_column_length)

lemma filter_zip_map:
  "map fst (filter (\<lambda>(r, t). P t) (zip xs (map g xs))) = filter (\<lambda>r. P (g r)) xs"
  by (induction xs) auto

lemma boundary_filter_readable:
  "list_all readable df \<Longrightarrow>
   boundary_filter other w df = Inr (filter (\<lambda>r. later_than w (row_time r)) df)"
  by (simp add: boundary_filter_def datetime_column_readable filter_zip_map)

lemma load_file_boundary:
  "read_frame f = Inr df \<Longrightarrow> datetime_column other df = Inr ts \<Longrightarrow> str_columns df \<Longrightarrow>
   load_file other w (date_of w) f = Inr (map truncate_row (rows_at df (later_positions w ts)))"
  by (simp add: load_file_def boundary_filter_positions truncate_frame_def)

lemma load_file_whole:
  "read_frame f = Inr df \<Longrightarrow> date_of w \<noteq> d \<Longrightarrow> load_file other w d f = truncate_frame df df"
  by (simp add: load_file_def)

lemma load_file_truncated:
  "load_file other w d f = Inr df \<Longrightarrow> \<exists>df0. df = map truncate_row df0"
  by (auto simp: load_file_def bind_def truncate_frame_def split: sum.splits if_splits)

lemma files_loop_skip:
  "file_date f = Some d \<Longrightarrow> d < date_of w \<Longrightarrow>
   files_loop other w (fs1 @ f # fs2) frames = files_loop other w (fs1 @ fs2) frames"
proof (induction fs1 arbitrary: frames)
  case Nil
  from Nil(2) have "\<not> date_of w \<le> d" by (simp only: not_le)
  with Nil(1) show ?case by simp
next
  case (Cons a fs1)
  show ?case
  proof (cases "file_date a")
    case None
    then show ?thesis by simp
  next
    case (Some da)
    show ?thesis
    proof (cases "load_file other w da a")
      case (Inl e)
      with Some Cons show ?thesis by simp
    next
      case (Inr df)
      with Some Cons show ?thesis by simp
    qed
  qed
qed

lemma files_loop_bad_name:
  "f \<in> set files \<Longrightarrow> file_date f = None \<Longrightarrow> \<exists>e. files_loop other w files frames = Inl e"
proof (induction files arbitrary: frames)
  case Nil
  then show ?case by simp
next
  case (Cons a files)
  show ?case
  proof (cases "a = f")
    case True
    with Cons.prems show ?thesis by simp
  next
    case False
    with Cons.prems have "f \<in> set files" by simp
    from Cons.IH [OF this Cons.prems(2)] show ?thesis
      by (cases "file_date a"; cases "load_file other w (the (file_date a)) a") auto
  qed
qed

lemma files_loop_truncated:
  "files_loop other w files frames = Inr out \<Longrightarrow>
   \<forall>fr\<in>set frames. \<forall>r\<in>set fr. \<exists>r0. r = truncate_row r0 \<Longrightarrow>
   \<forall>fr\<in>set out. \<forall>r\<in>set fr. \<exists>r0. r = truncate_row r0"
proof (induction files arbitrary: frames)
  case Nil
  then show ?case by simp
next
  case (Cons a files)
  show ?case
  proof (cases "file_date a")
    case None
    with Cons.prems show ?thesis by simp
  next
    case (Some da)
    show ?thesis
    proof (cases "date_of w \<le> da")
      case False
      with Some Cons.prems have "files_loop other w files frames = Inr out" by simp
      from Cons.IH [OF this Cons.prems(2)] show ?thesis .
    next
      case True
      show ?thesis
      proof (cases "load_file other w da a")
        case (Inl e)
        with Some True Cons.prems show ?thesis by simp
      next
        case (Inr df)
        with Some True Cons.prems have run: "files_loop other w files (frames @ [df]) = Inr out"
          by simp
        from Inr obtain df0 where "df = map truncate_row df0" using load_file_truncated by blast
        then have "\<forall>r\<in>set df. \<exists>r0. r = truncate_row r0" by auto
        with Cons.prems(2) have "\<forall>fr\<in>set (frames @ [df]). \<forall>r\<in>set fr. \<exists>r0. r = truncate_row r0"
          by auto
        from Cons.IH [OF run this] show ?thesis .
      qed
    qed
  qed
qed

lemma readNewerLogs_truncated:
  "r \<in> set (readNewerLogs other folder w) \<Longrightarrow> \<exists>r0. r = truncate_row r0"
proof -
  assume mem: "r \<in> set (readNewerLogs other folder w)"
  then obtain files where folder: "folder = Some files"
    by (cases folder) (auto simp: readNewerLogs_def)
  from mem folder obtain out where out: "files_loop other w files [] = Inr out"
    by (cases "files_loop other w files []") (auto simp: readNewerLogs_def)
  with mem folder have "r \<in> set (concat out)"
    by (auto simp: readNewerLogs_def split: if_splits)
  moreover from files_loop_truncated [OF out]
  have "\<forall>fr\<in>set out. \<forall>r\<in>set fr. \<exists>r0. r = truncate_row r0"
    by simp
  ultimately show ?thesis by auto
qed

lemma not_later_readable: "not_later w r \<Longrightarrow> readable r"
  by (auto simp: not_later_def readable_def row_time_def combined_text_def iso_cell_def
      iso_or_missing_def split: sum.splits option.splits)

lemma not_later_not_kept: "not_later w r \<Longrightarrow> \<not> later_than w (row_time r)"
  by (auto simp: not_later_def later_than_def split: option.splits)

lemma date_of_mono: "t \<le> w \<Longrightarrow> date_of t \<le> date_of w"
  by (cases t; cases w) (auto simp: date_of_def)

lemma load_file_nothing_new:
  assumes d: "date_of w \<le> d"
    and upto: "list_all (not_later w) (file_rows f)"
    and name: "list_all (not_before d) (file_rows f)"
    and load: "load_file other w d f = Inr df"
  shows "df = []"
proof -
  from load obtain df0 where rf: "read_frame f = Inr df0"
    by (cases "read_frame f") (auto simp: load_file_def)
  then have rows: "file_rows f = df0" by (simp add: file_rows_def)
  show ?thesis
  proof (cases "date_of w = d")
    case True
    from upto rows have "list_all readable df0"
      by (auto simp: list_all_iff intro: not_later_readable)
    then have "boundary_filter other w df0 = Inr (filter (\<lambda>r. later_than w (row_time r)) df0)"
      by (rule boundary_filter_readable)
    moreover from upto rows have "filter (\<lambda>r. later_than w (row_time r)) df0 = []"
      by (auto simp: list_all_iff filter_empty_conv dest: not_later_not_kept)
    ultimately have "load_file other w d f = truncate_frame df0 []"
      using rf True by (simp add: load_file_def)
    with load show ?thesis by (auto simp: truncate_frame_def split: if_splits)
  next
    case False
    have "df0 = []"
    proof (rule ccontr)
      assume "df0 \<noteq> []"
      then obtain r where r: "r \<in> set df0" by (cases df0) auto
      with upto name rows obtain t where "row_time r = Some t" "t \<le> w" "d \<le> date_of t"
        by (auto simp: list_all_iff not_later_def not_before_def split: option.splits)
      then have "d \<le> date_of w" using date_of_mono order_trans by blast
      with d False show False by simp
    qed
    with load_file_whole [OF rf False, of other] load show ?thesis
      by (auto simp: truncate_frame_def split: if_splits)
  qed
qed

lemma files_loop_nothing_new:
  "files_loop other w files frames = Inr out \<Longrightarrow>
   list_all (\<lambda>f. list_all (not_later w) (file_rows f)) files \<Longrightarrow>
   list_all rows_not_before_name files \<Longrightarrow>
   concat out = concat frames"
proof (induction files arbitrary: frames)
  case Nil
  then show ?case by simp
next
  case (Cons a files)
  show ?case
  proof (cases "file_date a")
    case None
    with Cons.prems show ?thesis by simp
  next
    case (Some da)
    show ?thesis
    proof (cases "date_of w \<le> da")
      case False
      with Some Cons.prems have "files_loop other w files frames = Inr out" by simp
      with Cons.IH Cons.prems show ?thesis by simp
    next
      case True
      show ?thesis
      proof (cases "load_file other w da a")
        case (Inl e)
        with Some True Cons.prems show ?thesis by simp
      next
        case (Inr df)
        with Some True Cons.prems have run: "files_loop other w files (frames @ [df]) = Inr out"
          by simp
        from Cons.prems Some have "list_all (not_later w) (file_rows a)"
          and "list_all (not_before da) (file_rows a)"
          by (simp_all add: rows_not_before_name_def)
        from load_file_nothing_new [OF True this Inr] have "df = []" .
        with Cons.IH [OF run] Cons.prems show ?thesis by simp
      qed
    qed
  qed
qed

lemma all_rows_files:
  "list_all P (all_rows files) = list_all (\<lambda>f. list_all P (file_rows f)) files"
  by (induction files) (simp_all add: all_rows_def)

lemma same_kinds_object_dtype:
  "list_all2 (\<lambda>r r'. is_text (c r) = is_text (c r')) df df' \<Longrightarrow>
   object_dtype c df = object_dtype c df'"
  by (induction df df' rule: list_all2_induct) (simp_all add: object_dtype_def)

lemma same_kinds_str_columns:
  "list_all2 same_kinds df df' \<Longrightarrow> str_columns df = str_columns df'"
proof -
  assume a: "list_all2 same_kinds df df'"
  have "list_all2 (\<lambda>r r'. is_text (cs_uri_stem r) = is_text (cs_uri_stem r')) df df'"
    "list_all2 (\<lambda>r r'. is_text (cs_uri_query r) = is_text (cs_uri_query r')) df df'"
    "list_all2 (\<lambda>r r'. is_text (cs_username r) = is_text (cs_username r')) df df'"
    "list_all2 (\<lambda>r r'. is_text (cs_user_agent r) = is_text (cs_user_agent r')) df df'"
    using a by (auto simp: same_kinds_def elim!: list_all2_mono)
  then show ?thesis
    by (simp add: str_columns_def same_kinds_object_dtype
        [of cs_uri_stem df df'] same_kinds_object_dtype [of cs_uri_query df df']
        same_kinds_object_dtype [of cs_username df df']
        same_kinds_object_dtype [of cs_user_agent df df'])
qed

lemma files_loop_failed_load:
  "f \<in> set files \<Longrightarrow> file_date f = Some d \<Longrightarrow> date_of w \<le> d \<Longrightarrow>
   load_file other w d f = Inl e \<Longrightarrow> \<exists>e'. files_loop other w files frames = Inl e'"
proof (induction files arbitrary: frames)
  case Nil
  then show ?case by simp
next
  case (Cons a files)
  show ?case
  proof (cases "a = f")
    case True
    with Cons.prems show ?thesis by simp
  next
    case False
    with Cons.prems have "f \<in> set files" by simp
    from Cons.IH [OF this Cons.prems(2) Cons.prems(3) Cons.prems(4)] show ?thesis
      by (cases "file_date a"; cases "load_file other w (the (file_date a)) a") auto
  qed
qed

lemma load_file_unread_times:
  "read_frame f = Inr df \<Longrightarrow> datetime_column other df = Inl e \<Longrightarrow>
   load_file other w (date_of w) f = Inl e"
  by (simp add: load_file_def boundary_filter_def)

section \<open>Idempotent re-ingestion\<close>

text \<open>
  C1, as the code has it. Let the watermark be the maximum combined timestamp over all
  rows of the files, and let no file hold a row dated earlier than the date in its
  name. Then \<^verbatim>\<open>readNewerLogs\<close> selects no row: a second run over an unchanged file set
  adds nothing. The second condition is needed because the function decides by the
  date in the name of a file, not by the dates of its rows, whether the rows are
  compared with the watermark at all.
\<close>

theorem reingestion_selects_nothing:
  assumes "is_max_timestamp files w" and "list_all rows_not_before_name files"
  shows "readNewerLogs other (Some files) w = []"
proof (cases "files_loop other w files []")
  case (Inl e)
  then show ?thesis by (simp add: readNewerLogs_def)
next
  case (Inr out)
  from assms(1) have "list_all (\<lambda>f. list_all (not_later w) (file_rows f)) files"
    by (simp add: is_max_timestamp_def all_rows_files)
  from files_loop_nothing_new [OF Inr this assms(2)] have "concat out = []" by simp
  with Inr show ?thesis by (simp add: readNewerLogs_def)
qed

text \<open>The theorem at two files, the older one skipped and the other filtered to
  nothing.\<close>

theorem reingestion_selects_nothing_witness:
  "is_max_timestamp [older_file, boundary_file] ((2024, 4, 19), (10, 0, 1)) \<and>
   list_all rows_not_before_name [older_file, boundary_file] \<and>
   readNewerLogs only_log_form (Some [older_file, boundary_file]) ((2024, 4, 19), (10, 0, 1)) = []"
proof -
  have a: "is_max_timestamp [older_file, boundary_file] ((2024, 4, 19), (10, 0, 1))"
    by code_simp
  have b: "list_all rows_not_before_name [older_file, boundary_file]"
    by code_simp
  from reingestion_selects_nothing [OF a b] a b show ?thesis by simp
qed

text \<open>
  C1 as stated fails: the watermark is the maximum timestamp over all rows of the one
  file, which is named for the following day, and the run selects its row again.
\<close>

theorem reingestion_counterexample:
  "is_max_timestamp [late_named_file] watermark \<and>
   readNewerLogs only_log_form (Some [late_named_file]) watermark = [row_at_watermark]"
  by code_simp

section \<open>Boundary exactness\<close>

text \<open>
  C2, as the code has it. Let \<^verbatim>\<open>pd.to_datetime\<close> read the combined column of the frame
  without raising, and let \<open>ts\<close> be the column of timestamps it gives. Then the
  boundary filter returns, in order, exactly the rows at the positions whose timestamp
  is strictly later than the watermark: the row at a position is kept if and only if
  it has a timestamp and the watermark is earlier than it, so a row at the watermark
  is dropped and a row one second later is kept. When every row is written in the form
  of the log files, \<open>ts\<close> holds the timestamp written in each row. For the file whose
  name carries the watermark's date and whose four truncated columns hold text, the
  kept rows, truncated, are what \<^verbatim>\<open>readNewerLogs\<close> returns. When reading the combined
  column of such a file raises, the filter raises, and \<^verbatim>\<open>readNewerLogs\<close> returns no row
  at all, of this file or of any other in the folder.
\<close>

theorem boundary_exactness:
  "(datetime_column other df = Inr ts \<longrightarrow>
      length ts = length df \<and>
      boundary_filter other w df = Inr (rows_at df (later_positions w ts)) \<and>
      (\<forall>i. (i \<in> set (later_positions w ts)) =
             (i < length df \<and> (\<exists>t. ts ! i = Some t \<and> w < t))) \<and>
      (list_all readable df \<longrightarrow> ts = map row_time df) \<and>
      (file_date f = Some (date_of w) \<and> read_frame f = Inr df \<and> str_columns df \<longrightarrow>
         readNewerLogs other (Some [f]) w =
           map truncate_row (rows_at df (later_positions w ts)))) \<and>
   (datetime_column other df = Inl e \<and> file_date f = Some (date_of w) \<and>
    read_frame f = Inr df \<and> f \<in> set files \<longrightarrow>
      boundary_filter other w df = Inl e \<and> readNewerLogs other (Some files) w = [])"
proof (intro conjI impI)
  assume a: "datetime_column other df = Inr ts"
  show len: "length ts = length df"
    using a by (rule datetime_column_length)
  show "boundary_filter other w df = Inr (rows_at df (later_positions w ts))"
    using a by (rule boundary_filter_positions)
  show "\<forall>i. (i \<in> set (later_positions w ts)) =
              (i < length df \<and> (\<exists>t. ts ! i = Some t \<and> w < t))"
    using len by (auto simp: later_positions_def later_than_def split: option.splits)
  {
    assume "list_all readable df"
    then show "ts = map row_time df"
      using a by (simp add: datetime_column_readable)
  }
  {
    assume "file_date f = Some (date_of w) \<and> read_frame f = Inr df \<and> str_columns df"
    then show "readNewerLogs other (Some [f]) w =
        map truncate_row (rows_at df (later_positions w ts))"
      using a by (auto simp: readNewerLogs_def load_file_boundary)
  }
next
  assume b: "datetime_column other df = Inl e \<and> file_date f = Some (date_of w) \<and>
    read_frame f = Inr df \<and> f \<in> set files"
  then show "boundary_filter other w df = Inl e"
    by (simp add: boundary_filter_def)
  from b have "load_file other w (date_of w) f = Inl e"
    by (simp add: load_file_unread_times)
  with b files_loop_failed_load [of f files "date_of w" w other e "[]"]
  obtain e' where "files_loop other w files [] = Inl e'" by auto
  then show "readNewerLogs other (Some files) w = []"
    by (simp add: readNewerLogs_def)
qed

text \<open>The watermark 2024-04-19 10:00:00: the row at 10:00:00 is dropped, the row at
  10:00:01 is kept. With a row whose time is garbled in a file of the watermark's
  date, the run returns nothing, the row of the following day included.\<close>

theorem boundary_exactness_witness:
  "datetime_column only_log_form [row_at_watermark, row_one_second_later] =
     Inr [Some watermark, Some ((2024, 4, 19), (10, 0, 1))] \<and>
   list_all readable [row_at_watermark, row_one_second_later] \<and>
   map row_time [row_at_watermark, row_one_second_later] =
     [Some watermark, Some ((2024, 4, 19), (10, 0, 1))] \<and>
   later_positions watermark [Some watermark, Some ((2024, 4, 19), (10, 0, 1))] = [1] \<and>
   boundary_filter only_log_form watermark [row_at_watermark, row_one_second_later] =
     Inr [row_one_second_later] \<and>
   file_date boundary_file = Some (date_of watermark) \<and>
   read_frame boundary_file = Inr [row_at_watermark, row_one_second_later] \<and>
   str_columns [row_at_watermark, row_one_second_later] \<and>
   readNewerLogs only_log_form (Some [boundary_file]) watermark = [row_one_second_later] \<and>
   datetime_column only_log_form [row_one_second_later, garbled_row] = Inl ValueError \<and>
   file_date garbled_file = Some (date_of watermark) \<and>
   read_frame garbled_file = Inr [row_one_second_later, garbled_row] \<and>
   garbled_file \<in> set [newer_file, garbled_file] \<and>
   readNewerLogs only_log_form (Some [newer_file, garbled_file]) watermark = []"
proof -
  let ?df = "[row_at_watermark, row_one_second_later]"
  let ?ts = "[Some watermark, Some ((2024, 4, 19), (10, 0, 1))]"
  let ?dg = "[row_one_second_later, garbled_row]"
  have a: "datetime_column only_log_form ?df = Inr ?ts" by code_simp
  have b: "later_positions watermark ?ts = [1]" by code_simp
  have c: "rows_at ?df [1] = [row_one_second_later]" by code_simp
  have d: "file_date boundary_file = Some (date_of watermark)" by code_simp
  have e: "read_frame boundary_file = Inr ?df" by code_simp
  have f: "str_columns ?df" by code_simp
  have g: "map truncate_row [row_one_second_later] = [row_one_second_later]" by code_simp
  have h: "list_all readable ?df" by code_simp
  have i: "datetime_column only_log_form ?dg = Inl ValueError" by code_simp
  have j: "file_date garbled_file = Some (date_of watermark)" by code_simp
  have k: "read_frame garbled_file = Inr ?dg" by code_simp
  have l: "garbled_file \<in> set [newer_file, garbled_file]" by simp
  from boundary_exactness [of only_log_form ?df ?ts watermark boundary_file ValueError "[]"]
    a b c d e f g h
  have one: "map row_time ?df = ?ts \<and>
      boundary_filter only_log_form watermark ?df = Inr [row_one_second_later] \<and>
      readNewerLogs only_log_form (Some [boundary_file]) watermark = [row_one_second_later]"
    by simp
  from boundary_exactness [of only_log_form ?dg ?ts watermark garbled_file ValueError
      "[newer_file, garbled_file]"] i j k l
  have two: "readNewerLogs only_log_form (Some [newer_file, garbled_file]) watermark = []"
    by simp
  from a b d e f h i j k l one two show ?thesis by simp
qed

text \<open>
  C2 as stated fails: the file carries the watermark's date and holds the row of
  10:00:01, later than the watermark, beside a row whose time is garbled. Reading the
  timestamps raises, and the run returns nothing, the later row included.
\<close>

theorem boundary_counterexample:
  "file_date garbled_file = Some (date_of watermark) \<and>
   read_frame garbled_file = Inr [row_one_second_later, garbled_row] \<and>
   row_time row_one_second_later = Some ((2024, 4, 19), (10, 0, 1)) \<and>
   watermark < ((2024, 4, 19), (10, 0, 1)) \<and>
   readNewerLogs only_log_form (Some [garbled_file]) watermark = []"
  by code_simp

section \<open>File-date skip\<close>

text \<open>
  C3. A file whose name carries a date strictly earlier than the watermark's date
  contributes nothing: the result is the same with the file as without it, whatever
  \<^verbatim>\<open>pd.read_csv\<close> would make of it and whatever its text, neither of which is looked
  at. A file whose name carries the watermark's date or a later one is read: alone in
  the folder, its loaded frame is the result.
\<close>

theorem file_date_skip:
  "(file_date f = Some d \<and> d < date_of w \<longrightarrow>
      readNewerLogs other (Some (fs1 @ f # fs2)) w = readNewerLogs other (Some (fs1 @ fs2)) w \<and>
      readNewerLogs other (Some (fs1 @ f\<lparr> read_csv := c, content := t \<rparr> # fs2)) w =
        readNewerLogs other (Some (fs1 @ fs2)) w \<and>
      readNewerLogs other (Some [f]) w = []) \<and>
   (file_date f = Some d \<and> date_of w \<le> d \<longrightarrow>
      readNewerLogs other (Some [f]) w =
        (case load_file other w d f of Inl e \<Rightarrow> [] | Inr df \<Rightarrow> df))"
proof (intro conjI impI)
  assume a: "file_date f = Some d \<and> d < date_of w"
  then have fd: "file_date f = Some d" and lt: "d < date_of w" by simp_all
  show "readNewerLogs other (Some (fs1 @ f # fs2)) w = readNewerLogs other (Some (fs1 @ fs2)) w"
    by (simp add: readNewerLogs_def files_loop_skip [OF fd lt])
  have "file_date (f\<lparr> read_csv := c, content := t \<rparr>) = Some d"
    using fd by (simp add: file_date_def)
  from files_loop_skip [OF this lt]
  show "readNewerLogs other (Some (fs1 @ f\<lparr> read_csv := c, content := t \<rparr> # fs2)) w =
        readNewerLogs other (Some (fs1 @ fs2)) w"
    by (simp add: readNewerLogs_def)
  from files_loop_skip [OF fd lt, of other "[]" "[]" "[]"]
  show "readNewerLogs other (Some [f]) w = []"
    by (simp add: readNewerLogs_def)
next
  assume "file_date f = Some d \<and> date_of w \<le> d"
  then show "readNewerLogs other (Some [f]) w =
      (case load_file other w d f of Inl e \<Rightarrow> [] | Inr df \<Rightarrow> df)"
    by (cases "load_file other w d f") (simp_all add: readNewerLogs_def)
qed

text \<open>A file of the day before the watermark among two that are read, and a file of
  the day after read whole.\<close>

theorem file_date_skip_witness:
  "file_date older_file = Some (2024, 4, 18) \<and> (2024, 4, 18) < date_of watermark \<and>
   readNewerLogs only_log_form (Some [older_file]) watermark = [] \<and>
   readNewerLogs only_log_form (Some ([boundary_file] @ older_file # [newer_file])) watermark =
     readNewerLogs only_log_form (Some ([boundary_file] @ [newer_file])) watermark \<and>
   readNewerLogs only_log_form (Some [boundary_file, newer_file]) watermark =
     [row_one_second_later, row_day_after] \<and>
   file_date newer_file = Some (2024, 4, 20) \<and> date_of watermark \<le> (2024, 4, 20) \<and>
   readNewerLogs only_log_form (Some [newer_file]) watermark = [row_day_after]"
proof -
  have a: "file_date older_file = Some (2024, 4, 18)" by code_simp
  have b: "(2024, 4, 18) < date_of watermark" by code_simp
  have c: "file_date newer_file = Some (2024, 4, 20)" by code_simp
  have d: "date_of watermark \<le> (2024, 4, 20)" by code_simp
  have e: "load_file only_log_form watermark (2024, 4, 20) newer_file = Inr [row_day_after]"
    by code_simp
  have g: "readNewerLogs only_log_form (Some [boundary_file, newer_file]) watermark =
      [row_one_second_later, row_day_after]"
    by code_simp
  from file_date_skip [of older_file "(2024, 4, 18)" watermark only_log_form "[boundary_file]" "[newer_file]"]
    file_date_skip [of newer_file "(2024, 4, 20)" watermark only_log_form]
    a b c d e g
  show ?thesis by simp
qed

section \<open>A file name without a date\<close>

text \<open>
  C7, as the code has it. When the folder holds a file whose name has no date that
  \<^verbatim>\<open>strptime\<close> can read at the expected place, \<^verbatim>\<open>readNewerLogs\<close> returns no row at all,
  wherever in the listing the file stands and whatever the other files hold: the
  ValueError leaves the loop, and the \<^verbatim>\<open>except\<close> branch logs it and returns the frame
  that is still empty.
\<close>

theorem unparseable_name_empties_result:
  assumes "f \<in> set files" and "file_date f = None"
  shows "readNewerLogs other (Some files) w = []"
proof -
  from files_loop_bad_name [OF assms] obtain e where "files_loop other w files [] = Inl e"
    by blast
  then show ?thesis by (simp add: readNewerLogs_def)
qed

text \<open>A misnamed file between two well-named ones.\<close>

theorem unparseable_name_empties_result_witness:
  "misnamed_file \<in> set [newer_file, misnamed_file, boundary_file] \<and>
   file_date misnamed_file = None \<and>
   readNewerLogs only_log_form (Some [newer_file, misnamed_file, boundary_file]) watermark = []"
proof -
  have a: "misnamed_file \<in> set [newer_file, misnamed_file, boundary_file]" by simp
  have b: "file_date misnamed_file = None" by code_simp
  from unparseable_name_empties_result [OF a b] a b show ?thesis by simp
qed

text \<open>
  C7 as stated fails: the well-named file alone contributes a row, and contributes
  none once a misnamed file stands beside it.
\<close>

theorem unparseable_name_counterexample:
  "file_date misnamed_file = None \<and>
   readNewerLogs only_log_form (Some [boundary_file]) watermark = [row_one_second_later] \<and>
   readNewerLogs only_log_form (Some [boundary_file, misnamed_file]) watermark = []"
  by code_simp

section \<open>Truncation\<close>

lemma same_but_texts_combined: "same_but_texts r r' \<Longrightarrow> combined r = combined r'"
proof -
  assume "same_but_texts r r'"
  then have eq: "r'\<lparr> cs_uri_stem := cs_uri_stem r, cs_uri_query := cs_uri_query r,
         cs_username := cs_username r, cs_user_agent := cs_user_agent r \<rparr> = r"
    by (simp add: same_but_texts_def)
  have "log_date r = log_date r'" by (subst eq [symmetric]) simp
  moreover have "log_time r = log_time r'" by (subst eq [symmetric]) simp
  ultimately show ?thesis by (simp add: combined_def split: cell.splits)
qed

lemma same_but_texts_combined_column:
  "list_all2 same_but_texts df df' \<Longrightarrow> combined_column df = combined_column df'"
  by (induction df df' rule: list_all2_induct) (simp_all add: same_but_texts_combined)

lemma same_but_texts_str_columns:
  "list_all2 same_but_texts df df' \<Longrightarrow> str_columns df = str_columns df'"
proof -
  assume "list_all2 same_but_texts df df'"
  then have "list_all2 same_kinds df df'"
    by (rule list_all2_mono) (simp add: same_but_texts_def)
  then show ?thesis by (rule same_kinds_str_columns)
qed

lemma truncate_frame_outcome:
  "length df = length df' \<Longrightarrow> str_columns df_read = str_columns df_read' \<Longrightarrow>
   map_sum id length (truncate_frame df_read df) = map_sum id length (truncate_frame df_read' df')"
  by (simp add: truncate_frame_def)

lemma load_file_outcome:
  assumes same: "list_all2 same_but_texts df df'"
    and f: "read_frame f = Inr df" and f': "read_frame f' = Inr df'"
  shows "map_sum id length (load_file other w d f) = map_sum id length (load_file other w d f')"
proof -
  from same have len: "length df = length df'" by (rule list_all2_lengthD)
  from same have str: "str_columns df = str_columns df'" by (rule same_but_texts_str_columns)
  from same have col: "datetime_column other df = datetime_column other df'"
    by (simp add: datetime_column_def same_but_texts_combined_column)
  show ?thesis
  proof (cases "date_of w = d")
    case False
    with f f' show ?thesis by (simp add: load_file_def truncate_frame_outcome [OF len str])
  next
    case True
    show ?thesis
    proof (cases "datetime_column other df")
      case (Inl e)
      with col have "datetime_column other df' = Inl e" by simp
      with Inl f f' True show ?thesis by (simp add: load_file_def boundary_filter_def)
    next
      case (Inr ts)
      with col have ts': "datetime_column other df' = Inr ts" by simp
      have "length (rows_at df (later_positions w ts)) = length (rows_at df' (later_positions w ts))"
        by (simp add: rows_at_def)
      from truncate_frame_outcome [OF this str] f f' True show ?thesis
        by (simp add: load_file_def boundary_filter_positions [OF Inr]
            boundary_filter_positions [OF ts'])
    qed
  qed
qed

text \<open>
  C9. When the truncation step does not raise it keeps every row, cuts the text of
  \<^verbatim>\<open>cs_uri_stem\<close> to its first 499 characters, of \<^verbatim>\<open>cs_uri_query\<close> and \<^verbatim>\<open>cs_username\<close>
  to their first 255 and of \<^verbatim>\<open>cs_user_agent\<close> to its first 399, and leaves the ten
  other fields as they are. It raises, an AttributeError, exactly when one of the four
  columns of the frame as read holds no text at all, and that does not depend on what
  the texts are: two frames whose cells are of the same kinds raise or not alike, and
  two files whose rows differ only in the texts of the four columns load with the same
  outcome, the same error or the same number of rows. So no row is dropped and no
  error is raised because a field is long. Every row that \<^verbatim>\<open>readNewerLogs\<close> returns is
  within the four bounds.
\<close>

theorem truncation_silent:
  "(truncate_frame df_read df = Inr out \<longrightarrow> out = map truncate_row df \<and> length out = length df) \<and>
   ((truncate_frame df_read df = Inl e) = (\<not> str_columns df_read \<and> e = AttributeError)) \<and>
   (list_all2 same_kinds df_read df_read' \<longrightarrow> str_columns df_read = str_columns df_read') \<and>
   (list_all2 same_but_texts df df' \<and> read_frame f = Inr df \<and> read_frame f' = Inr df' \<longrightarrow>
      map_sum id length (load_file other w d f) = map_sum id length (load_file other w d f')) \<and>
   (cs_uri_stem r = Str s \<longrightarrow> cs_uri_stem (truncate_row r) = Str (take 499 s)) \<and>
   (cs_uri_query r = Str s \<longrightarrow> cs_uri_query (truncate_row r) = Str (take 255 s)) \<and>
   (cs_username r = Str s \<longrightarrow> cs_username (truncate_row r) = Str (take 255 s)) \<and>
   (cs_user_agent r = Str s \<longrightarrow> cs_user_agent (truncate_row r) = Str (take 399 s)) \<and>
   cell_len (cs_uri_stem (truncate_row r)) \<le> 499 \<and>
   cell_len (cs_uri_query (truncate_row r)) \<le> 255 \<and>
   cell_len (cs_username (truncate_row r)) \<le> 255 \<and>
   cell_len (cs_user_agent (truncate_row r)) \<le> 399 \<and>
   log_date (truncate_row r) = log_date r \<and> log_time (truncate_row r) = log_time r \<and>
   s_ip (truncate_row r) = s_ip r \<and> cs_method (truncate_row r) = cs_method r \<and>
   s_port (truncate_row r) = s_port r \<and> c_ip (truncate_row r) = c_ip r \<and>
   sc_status (truncate_row r) = sc_status r \<and> sc_substatus (truncate_row r) = sc_substatus r \<and>
   sc_win32_status (truncate_row r) = sc_win32_status r \<and>
   time_taken (truncate_row r) = time_taken r \<and>
   (read_frame f = Inr df \<and> str_columns df \<and> date_of w \<noteq> d \<longrightarrow>
      load_file other w d f = Inr (map truncate_row df)) \<and>
   (\<forall>x\<in>set (readNewerLogs other folder w).
      cell_len (cs_uri_stem x) \<le> 499 \<and> cell_len (cs_uri_query x) \<le> 255 \<and>
      cell_len (cs_username x) \<le> 255 \<and> cell_len (cs_user_agent x) \<le> 399)"
proof -
  have kept: "truncate_frame df_read df = Inr out \<longrightarrow>
      out = map truncate_row df \<and> length out = length df"
    by (auto simp: truncate_frame_def split: if_splits)
  have raises: "(truncate_frame df_read df = Inl e) = (\<not> str_columns df_read \<and> e = AttributeError)"
    by (auto simp: truncate_frame_def)
  have kinds: "list_all2 same_kinds df_read df_read' \<longrightarrow> str_columns df_read = str_columns df_read'"
    by (simp add: same_kinds_str_columns)
  have outcome: "list_all2 same_but_texts df df' \<and> read_frame f = Inr df \<and> read_frame f' = Inr df' \<longrightarrow>
      map_sum id length (load_file other w d f) = map_sum id length (load_file other w d f')"
    using load_file_outcome by blast
  have fields: "(cs_uri_stem r = Str s \<longrightarrow> cs_uri_stem (truncate_row r) = Str (take 499 s)) \<and>
      (cs_uri_query r = Str s \<longrightarrow> cs_uri_query (truncate_row r) = Str (take 255 s)) \<and>
      (cs_username r = Str s \<longrightarrow> cs_username (truncate_row r) = Str (take 255 s)) \<and>
      (cs_user_agent r = Str s \<longrightarrow> cs_user_agent (truncate_row r) = Str (take 399 s))"
    by (simp add: truncate_row_def str_slice_def)
  have bounds: "cell_len (cs_uri_stem (truncate_row r)) \<le> 499 \<and>
      cell_len (cs_uri_query (truncate_row r)) \<le> 255 \<and>
      cell_len (cs_username (truncate_row r)) \<le> 255 \<and>
      cell_len (cs_user_agent (truncate_row r)) \<le> 399" for r
    by (simp add: truncate_row_def cell_len_str_slice)
  have others: "log_date (truncate_row r) = log_date r \<and> log_time (truncate_row r) = log_time r \<and>
      s_ip (truncate_row r) = s_ip r \<and> cs_method (truncate_row r) = cs_method r \<and>
      s_port (truncate_row r) = s_port r \<and> c_ip (truncate_row r) = c_ip r \<and>
      sc_status (truncate_row r) = sc_status r \<and> sc_substatus (truncate_row r) = sc_substatus r \<and>
      sc_win32_status (truncate_row r) = sc_win32_status r \<and>
      time_taken (truncate_row r) = time_taken r"
    by (simp add: truncate_row_def)
  have load: "read_frame f = Inr df \<and> str_columns df \<and> date_of w \<noteq> d \<longrightarrow>
      load_file other w d f = Inr (map truncate_row df)"
    by (simp add: load_file_whole truncate_frame_def)
  have out: "\<forall>x\<in>set (readNewerLogs other folder w).
      cell_len (cs_uri_stem x) \<le> 499 \<and> cell_len (cs_uri_query x) \<le> 255 \<and>
      cell_len (cs_username x) \<le> 255 \<and> cell_len (cs_user_agent x) \<le> 399"
  proof
    fix x assume "x \<in> set (readNewerLogs other folder w)"
    then obtain r0 where "x = truncate_row r0" using readNewerLogs_truncated by blast
    with bounds [of r0] show "cell_len (cs_uri_stem x) \<le> 499 \<and> cell_len (cs_uri_query x) \<le> 255 \<and>
      cell_len (cs_username x) \<le> 255 \<and> cell_len (cs_user_agent x) \<le> 399" by simp
  qed
  from kept raises kinds outcome fields bounds [of r] others load out show ?thesis by blast
qed

text \<open>A \<^verbatim>\<open>cs_uri_stem\<close> of 600 characters is returned cut to 499, and the file that
  holds it loads as the file does whose row differs only in that text.\<close>

theorem truncation_silent_witness:
  "cell_len (cs_uri_stem long_row) = 600 \<and>
   read_frame long_file = Inr [long_row] \<and> str_columns [long_row] \<and>
   date_of watermark \<noteq> (2024, 4, 20) \<and>
   truncate_frame [long_row] [long_row] = Inr [truncate_row long_row] \<and>
   load_file only_log_form watermark (2024, 4, 20) long_file = Inr [truncate_row long_row] \<and>
   list_all2 same_but_texts [long_row] [row_day_after] \<and>
   read_frame newer_file = Inr [row_day_after] \<and>
   map_sum id length (load_file only_log_form watermark (2024, 4, 20) long_file) =
     map_sum id length (load_file only_log_form watermark (2024, 4, 20) newer_file) \<and>
   readNewerLogs only_log_form (Some [long_file]) watermark = [truncate_row long_row] \<and>
   truncate_row long_row \<in> set (readNewerLogs only_log_form (Some [long_file]) watermark) \<and>
   cs_uri_stem (truncate_row long_row) = Str (replicate 499 (CHR ''a'')) \<and>
   cell_len (cs_uri_stem (truncate_row long_row)) \<le> 499"
proof -
  have a: "cell_len (cs_uri_stem long_row) = 600"
    by (simp add: long_row_def sample_row_def cell_len_def)
  have b: "read_frame long_file = Inr [long_row]"
    by (simp add: read_frame_def long_file_def)
  have b': "read_frame newer_file = Inr [row_day_after]"
    by (simp add: read_frame_def newer_file_def)
  have c: "date_of watermark \<noteq> (2024, 4, 20)"
    by (simp add: watermark_def date_of_def)
  have d: "file_date long_file = Some (2024, 4, 20)" by code_simp
  have e: "date_of watermark \<le> (2024, 4, 20)" by (simp add: watermark_def date_of_def)
  have k: "str_columns [long_row]"
    by (simp add: str_columns_def object_dtype_def long_row_def sample_row_def is_text_def)
  have s: "list_all2 same_but_texts [long_row] [row_day_after]"
    by (simp add: same_but_texts_def same_kinds_def long_row_def row_day_after_def
        sample_row_def is_text_def)
  have st: "cs_uri_stem long_row = Str (replicate 600 (CHR ''a''))"
    by (simp add: long_row_def sample_row_def)
  note t = truncation_silent [of "[long_row]" "[long_row]" "[truncate_row long_row]" AttributeError
      "[long_row]" "[row_day_after]" long_file newer_file only_log_form watermark
      "(2024, 4, 20)" long_row "replicate 600 (CHR ''a'')" "Some [long_file]"]
  have tf: "truncate_frame [long_row] [long_row] = Inr [truncate_row long_row]"
    using k by (simp add: truncate_frame_def)
  from t b k c have f: "load_file only_log_form watermark (2024, 4, 20) long_file =
      Inr [truncate_row long_row]"
    by simp
  from t s b b' have o: "map_sum id length (load_file only_log_form watermark (2024, 4, 20) long_file) =
      map_sum id length (load_file only_log_form watermark (2024, 4, 20) newer_file)"
    by blast
  have g: "readNewerLogs only_log_form (Some [long_file]) watermark = [truncate_row long_row]"
    using d e f by (simp add: readNewerLogs_def)
  from t st have h: "cs_uri_stem (truncate_row long_row) = Str (replicate 499 (CHR ''a''))"
    by simp
  from t have i: "cell_len (cs_uri_stem (truncate_row long_row)) \<le> 499" by blast
  from a b b' c k s tf f o g h i show ?thesis by simp
qed

text \<open>
  The frame of the one row whose query reads \<^verbatim>\<open>null\<close>: the column \<^verbatim>\<open>cs_uri_query\<close> holds
  no text, the truncation step raises, and the run returns no row, although no field
  is long.
\<close>

lemma truncation_needs_text:
  "read_frame only_null_query_file = Inr [row_with_null_query] \<and>
   \<not> str_columns [row_with_null_query] \<and>
   truncate_frame [row_with_null_query] [row_with_null_query] = Inl AttributeError \<and>
   readNewerLogs only_log_form (Some [only_null_query_file]) early_default = [] \<and>
   readNewerLogs only_log_form (Some [null_query_file]) early_default =
     [row_with_null_query, row_at_watermark]"
  by code_simp

section \<open>The method and URI filters\<close>

lemma has_nan_nan_row [simp]: "has_nan nan_row"
  by (simp add: has_nan_def nan_row_def)

lemma dropna_where:
  "dropna (df_where cond df) = filter (\<lambda>r. cond r \<and> \<not> has_nan r) df"
  by (induction df) (auto simp: dropna_def df_where_def)

lemma re_compile_literal: "is_literal u \<Longrightarrow> re_compile engine u = Some (contains u)"
  by (simp add: re_compile_def)

text \<open>With both filters given and a URI string that compiles, the result is the rows
  that satisfy both conditions and have no missing cell, and it is the rows of the
  method filter alone that the URI filter alone selects.\<close>

lemma filter_rows_compiled:
  "m \<noteq> [] \<Longrightarrow> u \<noteq> [] \<Longrightarrow> re_compile engine u = Some search \<Longrightarrow>
   filter_rows engine m u df =
     Inr (filter (\<lambda>r. method_is m r \<and> str_contains search r \<and> \<not> has_nan r) df)"
  by (simp add: filter_rows_def dropna_where Let_def conj_commute conj_left_commute)

lemma filter_rows_both:
  "m \<noteq> [] \<Longrightarrow> u \<noteq> [] \<Longrightarrow> is_literal u \<Longrightarrow>
   filter_rows engine m u df =
     Inr (filter (\<lambda>r. method_is m r \<and> stem_contains u r \<and> \<not> has_nan r) df)"
  by (simp add: filter_rows_compiled re_compile_literal stem_contains_def)

lemma filter_rows_composition:
  "m \<noteq> [] \<Longrightarrow> u \<noteq> [] \<Longrightarrow> re_compile engine u = Some search \<Longrightarrow>
   filter_rows engine m [] df = Inr by_method \<and> filter_rows engine [] u df = Inr by_uri \<longrightarrow>
   filter_rows engine m u df = Inr (filter (\<lambda>r. r \<in> set by_uri) by_method)"
  by (auto simp: filter_rows_def dropna_where Let_def intro: filter_cong)

lemma filter_rows_uncompiled:
  "u \<noteq> [] \<Longrightarrow> re_compile engine u = None \<Longrightarrow> filter_rows engine m u df = Inl RegexError"
  by (simp add: filter_rows_def Let_def)

lemma filter_rows_without_nan:
  "m \<noteq> [] \<Longrightarrow> u \<noteq> [] \<Longrightarrow> is_literal u \<Longrightarrow> list_all (\<lambda>r. \<not> has_nan r) df \<Longrightarrow>
   filter_rows engine m u df = Inr (filter (\<lambda>r. method_is m r \<and> stem_contains u r) df)"
  by (auto simp: filter_rows_both list_all_iff intro: filter_cong)

text \<open>
  C5, at a frame where the code departs from it. The first row is a \<^verbatim>\<open>GET\<close> of
  \<^verbatim>\<open>/a/b\<close> whose query reads \<^verbatim>\<open>null\<close>, which \<^verbatim>\<open>pd.read_csv\<close> stores as NaN; the
  ingestion step returns it with the row beside it. It satisfies both the method
  filter \<^verbatim>\<open>GET\<close> and the URI filter \<^verbatim>\<open>/a\<close>, and the two filters drop it: \<^verbatim>\<open>dropna()\<close>
  removes the rows that \<^verbatim>\<open>where\<close> blanked and with them every row that had a missing
  cell before. (\<open>filter_rows_without_nan\<close> and \<open>filter_rows_composition\<close> above are
  what does hold.)
\<close>

theorem filter_drops_row_with_missing_cell:
  "readNewerLogs only_log_form (Some [null_query_file]) early_default =
     [row_with_null_query, row_at_watermark] \<and>
   method_is ''GET'' row_with_null_query \<and> stem_contains ''/a'' row_with_null_query \<and>
   filter_rows engine ''GET'' ''/a'' [row_with_null_query, row_at_watermark] =
     Inr [row_at_watermark]"
proof -
  have a: "readNewerLogs only_log_form (Some [null_query_file]) early_default =
     [row_with_null_query, row_at_watermark]"
    by code_simp
  have b: "method_is ''GET'' row_with_null_query \<and> stem_contains ''/a'' row_with_null_query"
    by code_simp
  have c: "is_literal ''/a''" by code_simp
  have d: "filter (\<lambda>r. method_is ''GET'' r \<and> stem_contains ''/a'' r \<and> \<not> has_nan r)
      [row_with_null_query, row_at_watermark] = [row_at_watermark]"
    by code_simp
  have "filter_rows engine ''GET'' ''/a'' [row_with_null_query, row_at_watermark] =
     Inr [row_at_watermark]"
    using c d by (simp add: filter_rows_both)
  with a b show ?thesis by simp
qed

text \<open>
  C10. With both filter strings empty the filter stage returns the frame as it is.
  An empty method string is the absence of a method filter, so no choice of the two
  strings selects the rows whose method is the empty string: for the frame of one
  \<^verbatim>\<open>GET\<close> row and one row without a method, no arguments give just the second.
\<close>

theorem empty_filters_disable_filtering:
  "filter_rows engine [] [] df = Inr df \<and>
   (\<forall>m u. filter_rows engine m u [row_at_watermark, row_without_method] \<noteq>
      Inr [row_without_method])"
proof
  show "filter_rows engine [] [] df = Inr df" by (simp add: filter_rows_def)
  have a: "\<not> has_nan row_at_watermark" "\<not> has_nan row_without_method"
    by (simp_all add: has_nan_def row_at_watermark_def row_without_method_def sample_row_def)
  have b: "str_contains search row_at_watermark = str_contains search row_without_method"
    for search
    by (simp add: str_contains_def row_at_watermark_def row_without_method_def sample_row_def)
  have c: "method_is m row_without_method = (m = [])" for m
    by (auto simp: method_is_def row_without_method_def sample_row_def)
  have d: "row_at_watermark \<noteq> row_without_method"
    by (simp add: row_at_watermark_def row_without_method_def sample_row_def)
  show "\<forall>m u. filter_rows engine m u [row_at_watermark, row_without_method] \<noteq>
      Inr [row_without_method]"
  proof (intro allI)
    fix m u
    show "filter_rows engine m u [row_at_watermark, row_without_method] \<noteq> Inr [row_without_method]"
    proof (cases "re_compile engine u")
      case None
      with a c [of m] d show ?thesis
        by (cases "m = []"; cases "u = []") (auto simp: filter_rows_def dropna_where Let_def)
    next
      case (Some search)
      with a b [of search] c [of m] d show ?thesis
        by (cases "m = []"; cases "u = []") (auto simp: filter_rows_def dropna_where Let_def)
    qed
  qed
qed

section \<open>Storage failure and no data\<close>

text \<open>
  C6, as the code has it. The watermark reader returns the fixed early timestamp
  1972-06-30 00:00:00 for an empty log table, \<^verbatim>\<open>None\<close> when the store cannot be
  reached, and never \<^verbatim>\<open>None\<close> when it can. \<^verbatim>\<open>getIPsToLookup\<close> returns the empty list
  when the store cannot be reached, and when it can, the empty list exactly when every
  client address of the log table is in the geolocation table already.
\<close>

theorem storage_failure_results:
  "readLastDateTimeProcessed \<lparr> reachable = True, logs = [], geolocation = g \<rparr> = Some early_default \<and>
   readLastDateTimeProcessed \<lparr> reachable = False, logs = l, geolocation = g \<rparr> = None \<and>
   readLastDateTimeProcessed \<lparr> reachable = True, logs = l, geolocation = g \<rparr> \<noteq> None \<and>
   getIPsToLookup \<lparr> reachable = False, logs = l, geolocation = g \<rparr> = [] \<and>
   (getIPsToLookup \<lparr> reachable = True, logs = l, geolocation = g \<rparr> = []) =
     list_all (\<lambda>r. snd (snd r) \<in> set (map fst g)) l"
proof (intro conjI)
  show "readLastDateTimeProcessed \<lparr> reachable = True, logs = [], geolocation = g \<rparr> = Some early_default"
    by (simp add: readLastDateTimeProcessed_def select_last_date_time_def)
  show "readLastDateTimeProcessed \<lparr> reachable = False, logs = l, geolocation = g \<rparr> = None"
    by (simp add: readLastDateTimeProcessed_def)
  show "readLastDateTimeProcessed \<lparr> reachable = True, logs = l, geolocation = g \<rparr> \<noteq> None"
    by (simp add: readLastDateTimeProcessed_def early_default_def split: list.splits)
  show "getIPsToLookup \<lparr> reachable = False, logs = l, geolocation = g \<rparr> = []"
    by (simp add: getIPsToLookup_def)
  show "(getIPsToLookup \<lparr> reachable = True, logs = l, geolocation = g \<rparr> = []) =
          list_all (\<lambda>r. snd (snd r) \<in> set (map fst g)) l"
    by (auto simp: getIPsToLookup_def select_new_ips_def filter_empty_conv list_all_iff)
qed

text \<open>
  C6 as stated fails for \<^verbatim>\<open>getIPsToLookup\<close>: an unreachable store and a reachable
  store with nothing to look up give the same result.
\<close>

theorem geo_diff_failure_looks_empty:
  "getIPsToLookup unreachable_store = getIPsToLookup empty_store \<and>
   getIPsToLookup unreachable_store = [] \<and>
   reachable empty_store \<and> \<not> reachable unreachable_store"
  by code_simp

section \<open>The report of the elapsed time\<close>

text \<open>Once the start time is taken, the run ends with the report of the total run time
  and the line that closes the log.\<close>

lemma main_started:
  "try_block r = (evs, True, raised) \<Longrightarrow>
   main r = evs @ except_block raised @ total_run_time @
     [Info ''------------------------- Processing Complete -------------------------'']"
  by (simp add: main_def finally_block_def)

text \<open>
  C8, at the runs where the code departs from it. When \<^verbatim>\<open>config.pkl\<close> cannot be read,
  or the log directory it names does not exist, the \<^verbatim>\<open>try\<close> block is left before the
  start time is taken; the \<^verbatim>\<open>finally\<close> block then fails on the unbound name, and both
  scripts end with the traceback of a NameError and without any report of the elapsed
  time.
\<close>

theorem run_without_configuration:
  "main (r\<lparr> config := None \<rparr>) = [LogError ''### ERROR ### '', Traceback NameError] \<and>
   main (r\<lparr> config := Some config_pkl, log_dir_exists := False \<rparr>) =
     [LogError ''### ERROR ### '', Traceback NameError] \<and>
   geo_main (g\<lparr> geo_config := None \<rparr>) = [LogError ''### ERROR ### '', Traceback NameError] \<and>
   geo_main (g\<lparr> geo_config := Some config_pkl, geo_log_dir_exists := False \<rparr>) =
     [LogError ''### ERROR ### '', Traceback NameError]"
  by (simp add: main_def try_block_def geo_main_def geo_try_block_def except_block_def
      finally_block_def has_keys_def config_pkl_def)

end
